theory Spec2Isabelle
  imports Complex_Main "HOL-Library.Multiset"
begin


section \<open>decimal.js: the Decimal type under the library's default configuration\<close>

text \<open>
  The server imports \<^verbatim>\<open>Decimal\<close> from decimal.js and never configures it, so the
  library's defaults apply: \<^verbatim>\<open>precision = 20\<close> significant digits and rounding mode
  \<^verbatim>\<open>ROUND_HALF_UP\<close>.  The constructor keeps every digit of its argument;
  \<^verbatim>\<open>plus\<close> and \<^verbatim>\<open>minus\<close> return the exact sum or difference rounded to
  \<^verbatim>\<open>precision\<close> significant digits.

  A finite Decimal is a signed coefficient and a power of ten: \<open>Dec c e\<close> is \<open>c * 10^e\<close>.
  The library stores no trailing zeros; \<open>normalise\<close> strips them.  Not modelled: the
  non-finite values and the exponent limits \<open>\<plusminus>9e15\<close>, which no request reaches.
\<close>

datatype decimal = Dec (coef: int) (expo: int)

definition dval :: "decimal \<Rightarrow> rat" where
  "dval d = (if 0 \<le> expo d then of_int (coef d * 10 ^ nat (expo d))
             else of_int (coef d) / of_int (10 ^ nat (- expo d)))"

function strip_zeros :: "int \<Rightarrow> int \<Rightarrow> decimal" where
  "strip_zeros c e =
     (if c \<noteq> 0 \<and> c mod 10 = 0 then strip_zeros (c div 10) (e + 1) else Dec c e)"
  by pat_completeness auto
termination
  by (relation "measure (\<lambda>(c, e). nat \<bar>c\<bar>)") auto

declare strip_zeros.simps [simp del]

definition normalise :: "decimal \<Rightarrow> decimal" where
  "normalise d = (if coef d = 0 then Dec 0 0 else strip_zeros (coef d) (expo d))"

text \<open>The decimal digits of a natural number, most significant first.\<close>

definition digit_char :: "nat \<Rightarrow> char" where
  "digit_char n = ''0123456789'' ! n"

function nat_digits :: "nat \<Rightarrow> string" where
  "nat_digits n =
     (if n < 10 then [digit_char n] else nat_digits (n div 10) @ [digit_char (n mod 10)])"
  by pat_completeness auto
termination
  by (relation "measure id") auto

declare nat_digits.simps [simp del]

text \<open>\<open>sd x\<close>: the number of significant digits of \<open>x\<close> (trailing zeros do not count).\<close>

definition sd :: "decimal \<Rightarrow> nat" where
  "sd x = length (nat_digits (nat \<bar>coef (normalise x)\<bar>))"

definition precision :: nat where
  "precision = 20"

text \<open>
  \<^verbatim>\<open>ROUND_HALF_UP\<close>: to the nearest neighbour, a tie away from zero.
  \<open>round_half_up c k\<close> drops the last \<open>k\<close> digits of the coefficient \<open>c\<close>.
\<close>

definition round_half_up :: "int \<Rightarrow> nat \<Rightarrow> int" where
  "round_half_up c k =
     (let q = \<bar>c\<bar> div 10 ^ k; r = \<bar>c\<bar> mod 10 ^ k
      in sgn c * (if 10 ^ k \<le> 2 * r then q + 1 else q))"

text \<open>\<^verbatim>\<open>finalise(x, pr, rm)\<close> with \<^verbatim>\<open>rm = ROUND_HALF_UP\<close>.\<close>

definition finalise :: "decimal \<Rightarrow> nat \<Rightarrow> decimal" where
  "finalise x pr =
     (let n = normalise x; k = sd x - pr
      in if sd x \<le> pr then n
         else normalise (Dec (round_half_up (coef n) k) (expo n + int k)))"

text \<open>The exact sum, before rounding: both operands brought to the smaller exponent.\<close>

definition add_exact :: "decimal \<Rightarrow> decimal \<Rightarrow> decimal" where
  "add_exact x y =
     (let e = min (expo x) (expo y)
      in Dec (coef x * 10 ^ nat (expo x - e) + coef y * 10 ^ nat (expo y - e)) e)"

definition negated :: "decimal \<Rightarrow> decimal" where
  "negated x = Dec (- coef x) (expo x)"

definition Decimal_plus :: "decimal \<Rightarrow> decimal \<Rightarrow> decimal" where
  "Decimal_plus x y = finalise (add_exact x y) precision"

definition Decimal_minus :: "decimal \<Rightarrow> decimal \<Rightarrow> decimal" where
  "Decimal_minus x y = finalise (add_exact x (negated y)) precision"


section \<open>JSON values and their JavaScript string forms\<close>

text \<open>
  The request body after \<^verbatim>\<open>express.json()\<close>.  A JSON number is kept as the decimal
  that JavaScript prints for it (\<^verbatim>\<open>String(v)\<close>, the shortest decimal that reads back
  as the same double): both libraries see a number only through that string, the
  validators after express-validator's \<^verbatim>\<open>toString\<close> and decimal.js through
  \<^verbatim>\<open>v.toString()\<close>.  An object lists each key once, and no key shadows a method of
  \<^verbatim>\<open>Object.prototype\<close>.  A missing property (\<^verbatim>\<open>undefined\<close>) is \<open>None\<close>.
\<close>

datatype json =
    JNull
  | JBool bool
  | JNum decimal
  | JStr string
  | JArr "json list"
  | JObj "(string \<times> json) list"

text \<open>\<^verbatim>\<open>value[key]\<close> for one of the keys this program reads, on a value that is not null.\<close>

fun get_prop :: "json \<Rightarrow> string \<Rightarrow> json option" where
  "get_prop (JObj kvs) k = map_of kvs k"
| "get_prop _ k = None"

text \<open>
  \<^verbatim>\<open>Number.prototype.toString\<close> (ECMAScript, Number::toString, radix 10): with \<open>k\<close>
  digits and the decimal point after the \<open>n\<close>-th, plain notation for \<open>-6 < n \<le> 21\<close> and
  exponent notation otherwise.
\<close>

definition number_toString :: "decimal \<Rightarrow> string" where
  "number_toString d =
     (let m = normalise d;
          ds = nat_digits (nat \<bar>coef m\<bar>);
          k = int (length ds);
          n = k + expo m
      in (if coef m < 0 then ''-'' else '''') @
         (if coef m = 0 then ''0''
          else if k \<le> n \<and> n \<le> 21 then ds @ replicate (nat (n - k)) (CHR ''0'')
          else if 0 < n \<and> n \<le> 21 then take (nat n) ds @ ''.'' @ drop (nat n) ds
          else if - 6 < n \<and> n \<le> 0 then ''0.'' @ replicate (nat (- n)) (CHR ''0'') @ ds
          else (let es = (if n - 1 < 0 then ''-'' else ''+'') @ nat_digits (nat \<bar>n - 1\<bar>)
                in if k = 1 then ds @ ''e'' @ es
                   else take 1 ds @ ''.'' @ drop 1 ds @ ''e'' @ es)))"

fun join :: "string \<Rightarrow> string list \<Rightarrow> string" where
  "join sep [] = []"
| "join sep [x] = x"
| "join sep (x # y # ys) = x @ sep @ join sep (y # ys)"

text \<open>
  JavaScript's \<^verbatim>\<open>String(v)\<close>.  \<^verbatim>\<open>Array.prototype.toString\<close> joins the elements with
  commas, a null element as the empty string.
\<close>

fun js_String :: "json \<Rightarrow> string" where
  "js_String JNull = ''null''"
| "js_String (JBool b) = (if b then ''true'' else ''false'')"
| "js_String (JNum d) = number_toString d"
| "js_String (JStr s) = s"
| "js_String (JArr xs) = join '','' (map (\<lambda>x. if x = JNull then [] else js_String x) xs)"
| "js_String (JObj kvs) = ''[object Object]''"

definition js_String_opt :: "json option \<Rightarrow> string" where
  "js_String_opt v = (case v of None \<Rightarrow> ''undefined'' | Some x \<Rightarrow> js_String x)"


section \<open>Numerals in strings\<close>

definition is_digit :: "char \<Rightarrow> bool" where
  "is_digit c = (c \<in> set ''0123456789'')"

definition digit_val :: "char \<Rightarrow> nat" where
  "digit_val c = of_char c - of_char (CHR ''0'')"

definition digits_val :: "string \<Rightarrow> nat" where
  "digits_val ds = foldl (\<lambda>acc c. 10 * acc + digit_val c) 0 ds"

text \<open>
  A numeral cut into the parts the three regular expressions below talk about: an
  optional sign, integer digits, an optional point with fraction digits, an optional
  exponent (marker, optional sign, at least one digit) and whatever is left.
\<close>

record numeral =
  sign :: "char option"
  int_digits :: string
  has_point :: bool
  frac_digits :: string
  exponent :: "(char option \<times> string) option"
  rest :: string

definition take_sign :: "string \<Rightarrow> char option \<times> string" where
  "take_sign s =
     (case s of c # t \<Rightarrow> if c = CHR ''+'' \<or> c = CHR ''-'' then (Some c, t) else (None, s)
      | [] \<Rightarrow> (None, s))"

definition take_exponent :: "string \<Rightarrow> (char option \<times> string) option \<times> string" where
  "take_exponent s =
     (case s of
        c # t \<Rightarrow>
          if c = CHR ''e'' \<or> c = CHR ''E'' then
            (let (sg, u) = take_sign t; ds = takeWhile is_digit u
             in if ds = [] then (None, s) else (Some (sg, ds), dropWhile is_digit u))
          else (None, s)
      | [] \<Rightarrow> (None, s))"

definition scan_numeral :: "string \<Rightarrow> numeral" where
  "scan_numeral s =
     (let (sg, s1) = take_sign s;
          ip = takeWhile is_digit s1; s2 = dropWhile is_digit s1;
          pt = (s2 \<noteq> [] \<and> hd s2 = CHR ''.'');
          s3 = (if pt then tl s2 else s2);
          fp = (if pt then takeWhile is_digit s3 else []);
          s4 = (if pt then dropWhile is_digit s3 else s3);
          (ex, s5) = take_exponent s4
      in \<lparr>sign = sg, int_digits = ip, has_point = pt, frac_digits = fp,
          exponent = ex, rest = s5\<rparr>)"

text \<open>The value of a scanned numeral that has at least one mantissa digit.\<close>

definition numeral_decimal :: "numeral \<Rightarrow> decimal" where
  "numeral_decimal n =
     (let m = int (digits_val (int_digits n @ frac_digits n));
          x = (case exponent n of None \<Rightarrow> 0
               | Some (sg, ds) \<Rightarrow>
                   if sg = Some (CHR ''-'') then - int (digits_val ds) else int (digits_val ds))
      in Dec (if sign n = Some (CHR ''-'') then - m else m) (x - int (length (frac_digits n))))"

section \<open>validator.js: the string validators the route uses\<close>

text \<open>\<^verbatim>\<open>isNumeric(str)\<close>: the regular expression \<^verbatim>\<open>^[+-]?([0-9]*[.])?[0-9]+$\<close>.\<close>

definition isNumeric :: "string \<Rightarrow> bool" where
  "isNumeric str =
     (let n = scan_numeral str
      in exponent n = None \<and> rest n = [] \<and>
         (if has_point n then frac_digits n \<noteq> [] else int_digits n \<noteq> []))"

text \<open>
  \<^verbatim>\<open>parseFloat(str) >= 0\<close> for a string the float pattern matches: \<^verbatim>\<open>NaN\<close> without
  a mantissa digit; otherwise the nearest double, which is \<^verbatim>\<open>-0\<close> (and so \<^verbatim>\<open>>= 0\<close>)
  for a negative value no further from zero than half the smallest double.
\<close>

definition parseFloat_ge_0 :: "numeral \<Rightarrow> bool" where
  "parseFloat_ge_0 n =
     (int_digits n @ frac_digits n \<noteq> [] \<and> - (1 / 2 ^ 1075) \<le> dval (numeral_decimal n))"

text \<open>
  \<^verbatim>\<open>isFloat(str, { min: 0 })\<close>: the pattern
  \<^verbatim>\<open>^(?:[-+])?(?:[0-9]+)?(?:\.[0-9]*)?(?:[eE][\+\-]?(?:[0-9]+))?$\<close>, none of the
  strings \<^verbatim>\<open>'' . , - +\<close>, and \<^verbatim>\<open>parseFloat(str) >= 0\<close>.  (The function reads
  the number from the string with its first comma turned into a point; a string with a
  comma does not match the pattern.)
\<close>

definition isFloat_min_0 :: "string \<Rightarrow> bool" where
  "isFloat_min_0 str =
     (str \<notin> {[], ''.'', '','', ''-'', ''+''} \<and> rest (scan_numeral str) = [] \<and>
      parseFloat_ge_0 (scan_numeral str))"

definition isIn :: "string list \<Rightarrow> string \<Rightarrow> bool" where
  "isIn options str = (str \<in> set options)"

definition isEmpty :: "string \<Rightarrow> bool" where
  "isEmpty str = (str = [])"


section \<open>express-validator: field selection, validation chains, errors\<close>

text \<open>
  \<^verbatim>\<open>toString(value)\<close> of express-validator's utilities (version 7), which every standard
  validator sees instead of the value: the empty string for null and undefined, and
  \<^verbatim>\<open>value.toString()\<close> or \<^verbatim>\<open>String(value)\<close> otherwise, so that an array is the list of its
  elements' strings with commas between them.
\<close>

definition toString :: "json option \<Rightarrow> string" where
  "toString v =
     (case v of
        None \<Rightarrow> []
      | Some JNull \<Rightarrow> []
      | Some x \<Rightarrow> js_String x)"

text \<open>A field path as lodash's \<^verbatim>\<open>toPath\<close> splits it; \<open>Wildcard\<close> is the segment \<^verbatim>\<open>*\<close>.\<close>

datatype segment = Key string | Wildcard

text \<open>\<^verbatim>\<open>object != null && !_.isObjectLike(object)\<close>\<close>

definition is_primitive :: "json option \<Rightarrow> bool" where
  "is_primitive v =
     (case v of Some (JBool b) \<Rightarrow> True | Some (JNum d) \<Rightarrow> True | Some (JStr s) \<Rightarrow> True
      | _ \<Rightarrow> False)"

text \<open>\<^verbatim>\<open>Object.keys(object || {})\<close>, each key with its value: an array's keys are its indices.\<close>

definition entries :: "json option \<Rightarrow> (string \<times> json) list" where
  "entries v =
     (case v of
        Some (JObj kvs) \<Rightarrow> kvs
      | Some (JArr xs) \<Rightarrow> zip (map nat_digits [0..<length xs]) xs
      | _ \<Rightarrow> [])"

definition reconstructFieldPath :: "string list \<Rightarrow> string" where
  "reconstructFieldPath segs =
     foldl (\<lambda>prev seg.
        prev @ (if CHR ''.'' \<in> set seg then [CHR ''['', CHR 0x22] @ seg @ [CHR 0x22, CHR '']'']
                else if seg \<noteq> [] \<and> list_all is_digit seg then ''['' @ seg @ '']''
                else if prev \<noteq> [] then ''.'' @ seg
                else seg)) [] segs"

definition key_name :: "segment \<Rightarrow> string" where
  "key_name seg = (case seg of Key k \<Rightarrow> k | Wildcard \<Rightarrow> ''*'')"

text \<open>
  \<^verbatim>\<open>expandPath\<close> together with the read of each selected path: the instances of a field,
  each a path and the value found there.  A wildcard under a primitive selects nothing;
  a missing or null object is walked as the empty object, so that a field which does not
  exist is still selected, with value undefined.
\<close>

fun selectFields :: "json option \<Rightarrow> segment list \<Rightarrow> string list \<Rightarrow> (string \<times> json option) list" where
  "selectFields v [] path = [(reconstructFieldPath path, v)]"
| "selectFields v (seg # segs) path =
     (if is_primitive v then
        (case seg of
           Wildcard \<Rightarrow> []
         | Key k \<Rightarrow> [(reconstructFieldPath (path @ map key_name (seg # segs)), None)])
      else
        (case seg of
           Wildcard \<Rightarrow>
             concat (map (\<lambda>(k, x). selectFields (Some x) segs (path @ [k])) (entries v))
         | Key k \<Rightarrow>
             selectFields (case v of Some x \<Rightarrow> get_prop x k | None \<Rightarrow> None) segs (path @ [k])))"

text \<open>An entry of \<^verbatim>\<open>validationResult(req).array()\<close>.\<close>

record validation_error =
  e_type :: string
  e_value :: "json option"
  e_msg :: string
  e_path :: string
  e_location :: string

definition field_error :: "string \<Rightarrow> string \<Rightarrow> json option \<Rightarrow> validation_error" where
  "field_error m p v =
     \<lparr>e_type = ''field'', e_value = v, e_msg = m, e_path = p, e_location = ''body''\<rparr>"

text \<open>
  The items of a chain.  A standard validation holds a validator.js function, whether it
  is negated (\<^verbatim>\<open>.not()\<close>) and its message; run on an array it checks every element on
  its own, and on an empty array nothing.  A custom validation sees the value itself.
\<close>

datatype context_item =
    StandardValidation "string \<Rightarrow> bool" bool string
  | CustomValidation "json option \<Rightarrow> bool" string

definition values_of :: "json option \<Rightarrow> json option list" where
  "values_of v = (case v of Some (JArr xs) \<Rightarrow> map Some xs | _ \<Rightarrow> [v])"

fun run_item :: "context_item \<Rightarrow> string \<Rightarrow> json option \<Rightarrow> validation_error list" where
  "run_item (StandardValidation validator neg m) p v =
     concat (map (\<lambda>x. let result = validator (toString x)
                       in if (if neg then result else \<not> result) then [field_error m p x] else [])
                 (values_of v))"
| "run_item (CustomValidation validator m) p v =
     (if validator v then [] else [field_error m p v])"

type_synonym validation_chain = "segment list \<times> context_item list"

text \<open>A chain runs its items in order, each on every instance of the field; nothing bails.\<close>

definition run_chain :: "json \<Rightarrow> validation_chain \<Rightarrow> validation_error list" where
  "run_chain body ch =
     (let instances = selectFields (Some body) (fst ch) []
      in concat (map (\<lambda>item. concat (map (\<lambda>(p, v). run_item item p v) instances)) (snd ch)))"

definition isArray :: "json option \<Rightarrow> bool" where
  "isArray v = (case v of Some (JArr xs) \<Rightarrow> True | _ \<Rightarrow> False)"


section \<open>The server: validation schema and error middleware\<close>

definition quoted :: "string \<Rightarrow> string" where
  "quoted s = [CHR 0x22] @ s @ [CHR 0x22]"

text \<open>The four chains of \<^verbatim>\<open>calculateBalanceValidation\<close>, in the order of the array.\<close>

definition initialBalance_chain :: validation_chain where
  "initialBalance_chain =
     ([Key ''initialBalance''],
      [StandardValidation isNumeric False ''initialBalance must be a number''])"

definition transactions_chain :: validation_chain where
  "transactions_chain =
     ([Key ''transactions''],
      [CustomValidation isArray ''transactions must be an array'',
       StandardValidation isEmpty True ''transactions array cannot be empty''])"

definition type_chain :: validation_chain where
  "type_chain =
     ([Key ''transactions'', Wildcard, Key ''type''],
      [StandardValidation (isIn [''credit'', ''debit'']) False
         (''Transaction type must be either '' @ quoted ''credit'' @ '' or '' @ quoted ''debit'')])"

definition amount_chain :: validation_chain where
  "amount_chain =
     ([Key ''transactions'', Wildcard, Key ''amount''],
      [StandardValidation isNumeric False ''Transaction amount must be a number'',
       StandardValidation isFloat_min_0 False
         ''Transaction amount must be a non-negative number''])"

definition calculateBalanceValidation :: "validation_chain list" where
  "calculateBalanceValidation =
     [initialBalance_chain, transactions_chain, type_chain, amount_chain]"

definition validationResult :: "json \<Rightarrow> validation_error list" where
  "validationResult body = concat (map (run_chain body) calculateBalanceValidation)"

text \<open>The response bodies the server sends, and a response: status code and body.\<close>

record CalculateBalanceResponse =
  finalBalance :: rat
  status :: nat

record ErrorResponse =
  error :: string
  message :: "string option"
  details :: "validation_error list option"

datatype response_body = Balance CalculateBalanceResponse | Failure ErrorResponse

type_synonym http_response = "nat \<times> response_body"

text \<open>
  \<^verbatim>\<open>handleValidationErrors\<close>: the 400 response when there are errors, \<open>None\<close> for
  \<^verbatim>\<open>next()\<close>.
\<close>

definition handleValidationErrors :: "json \<Rightarrow> http_response option" where
  "handleValidationErrors body =
     (let errors = validationResult body
      in if errors \<noteq> [] then
           Some (400, Failure \<lparr>error = ''Validation failed'', message = None,
                               details = Some errors\<rparr>)
         else None)"

section \<open>decimal.js: the constructor\<close>

text \<open>What a \<^verbatim>\<open>throw\<close> carries: an \<^verbatim>\<open>Error\<close> with its message, or any other value.\<close>

datatype thrown = Error string | NonError

definition invalidArgument :: string where
  "invalidArgument = ''[DecimalError] Invalid argument: ''"

text \<open>
  \<^verbatim>\<open>new Decimal(v)\<close>.  A number is read from its string form, which denotes the decimal
  the model keeps for it.  A string loses one leading sign and must then match
  \<^verbatim>\<open>/^(\d+(\.\d*)?|\.\d+)(e[+-]?\d+)?$/i\<close>; every digit is kept.  Anything else is an
  invalid argument.  Not modelled: the strings the library reads by other rules (the names
  of the non-finite values, literals in base 2, 8 and 16, digit separators), none of
  which the route's \<^verbatim>\<open>isNumeric\<close> lets through.
\<close>

definition isDecimal :: "numeral \<Rightarrow> bool" where
  "isDecimal n =
     (rest n = [] \<and> (int_digits n \<noteq> [] \<or> (has_point n \<and> frac_digits n \<noteq> [])))"

definition new_Decimal :: "json option \<Rightarrow> thrown + decimal" where
  "new_Decimal v =
     (case v of
        Some (JNum d) \<Rightarrow> Inr (normalise d)
      | Some (JStr s) \<Rightarrow>
          (let n = scan_numeral s
           in if isDecimal n then Inr (normalise (numeral_decimal n))
              else Inl (Error (invalidArgument @ snd (take_sign s))))
      | _ \<Rightarrow> Inl (Error (invalidArgument @ js_String_opt v)))"


section \<open>The server: the handler of POST /calculate-balance\<close>

text \<open>
  \<^verbatim>\<open>const { a, b } = v\<close>, where \<open>src\<close> is the text of the expression \<open>v\<close>: a
  TypeError on null, the two properties otherwise.  The message is the one V8 gives.
\<close>

definition single_quoted :: "string \<Rightarrow> string" where
  "single_quoted s = [CHR 0x27] @ s @ [CHR 0x27]"

definition destructure ::
    "json \<Rightarrow> string \<Rightarrow> string \<Rightarrow> string \<Rightarrow> thrown + (json option \<times> json option)" where
  "destructure v src a b =
     (if v = JNull then
        Inl (Error (''Cannot destructure property '' @ single_quoted a @ '' of '' @
                    single_quoted src @ '' as it is null.''))
      else Inr (get_prop v a, get_prop v b))"

text \<open>
  \<^verbatim>\<open>for (const transaction of transactions)\<close>: what the loop iterates over.  An array
  gives its elements and a string its characters; nothing else in JSON is iterable.
\<close>

definition iterate :: "json option \<Rightarrow> thrown + json list" where
  "iterate v =
     (case v of
        Some (JArr xs) \<Rightarrow> Inr xs
      | Some (JStr s) \<Rightarrow> Inr (map (\<lambda>c. JStr [c]) s)
      | _ \<Rightarrow> Inl (Error (''transactions is not iterable'')))"

text \<open>The body of the loop, lines 194 to 202: the new running balance, or what was thrown.\<close>

definition process_transaction :: "decimal \<Rightarrow> json \<Rightarrow> thrown + decimal" where
  "process_transaction balance transaction =
     (case destructure transaction ''transaction'' ''type'' ''amount'' of
        Inl e \<Rightarrow> Inl e
      | Inr (type, amount) \<Rightarrow>
          (case new_Decimal amount of
             Inl e \<Rightarrow> Inl e
           | Inr amountDecimal \<Rightarrow>
               if type = Some (JStr ''credit'') then Inr (Decimal_plus balance amountDecimal)
               else if type = Some (JStr ''debit'') then Inr (Decimal_minus balance amountDecimal)
               else Inr balance))"

fun process_transactions :: "decimal \<Rightarrow> json list \<Rightarrow> thrown + decimal" where
  "process_transactions balance [] = Inr balance"
| "process_transactions balance (transaction # transactions) =
     (case process_transaction balance transaction of
        Inl e \<Rightarrow> Inl e
      | Inr balance' \<Rightarrow> process_transactions balance' transactions)"

text \<open>Lines 189 to 203: the running balance after the loop.\<close>

definition compute_balance :: "json \<Rightarrow> thrown + decimal" where
  "compute_balance body =
     (case destructure body ''req.body'' ''initialBalance'' ''transactions'' of
        Inl e \<Rightarrow> Inl e
      | Inr (initialBalance, transactions) \<Rightarrow>
          (case new_Decimal initialBalance of
             Inl e \<Rightarrow> Inl e
           | Inr balance \<Rightarrow>
               (case iterate transactions of
                  Inl e \<Rightarrow> Inl e
                | Inr ts \<Rightarrow> process_transactions balance ts)))"

text \<open>
  The handler.  \<open>toNumber\<close> is \<^verbatim>\<open>Decimal.prototype.toNumber\<close>, from the value of a Decimal
  to the value of the nearest double: binary floating point, which the model takes as a
  parameter.  The catch clause reports whatever the try block threw.
\<close>

definition error_message :: "thrown \<Rightarrow> string" where
  "error_message e = (case e of Error m \<Rightarrow> m | NonError \<Rightarrow> ''Unknown error'')"

definition calculate_balance :: "(rat \<Rightarrow> rat) \<Rightarrow> json \<Rightarrow> http_response" where
  "calculate_balance toNumber body =
     (case compute_balance body of
        Inr balance \<Rightarrow>
          (let fb = toNumber (dval balance);
               st = (if fb \<ge> 0 then 1 else 2)
           in (200, Balance \<lparr>finalBalance = fb, status = st\<rparr>))
      | Inl e \<Rightarrow>
          (500, Failure \<lparr>error = ''Internal server error'', message = Some (error_message e),
                         details = None\<rparr>))"

text \<open>
  The route: the validation chains, \<^verbatim>\<open>handleValidationErrors\<close>, then the handler.
\<close>

definition post_calculate_balance :: "(rat \<Rightarrow> rat) \<Rightarrow> json \<Rightarrow> http_response" where
  "post_calculate_balance toNumber body =
     (case handleValidationErrors body of
        Some response \<Rightarrow> response
      | None \<Rightarrow> calculate_balance toNumber body)"


section \<open>Requests of the declared type\<close>

text \<open>
  The interfaces \<^verbatim>\<open>Transaction\<close> and \<^verbatim>\<open>CalculateBalanceRequest\<close>, and the JSON body
  of such a request.
\<close>

datatype transaction_type = credit | debit

record Transaction =
  type :: transaction_type
  amount :: decimal

record CalculateBalanceRequest =
  initialBalance :: decimal
  transactions :: "Transaction list"

definition type_json :: "transaction_type \<Rightarrow> json" where
  "type_json t = JStr (case t of credit \<Rightarrow> ''credit'' | debit \<Rightarrow> ''debit'')"

definition Transaction_json :: "Transaction \<Rightarrow> json" where
  "Transaction_json t = JObj [(''type'', type_json (type t)), (''amount'', JNum (amount t))]"

definition Request_json :: "CalculateBalanceRequest \<Rightarrow> json" where
  "Request_json r =
     JObj [(''initialBalance'', JNum (initialBalance r)),
           (''transactions'', JArr (map Transaction_json (transactions r)))]"

section \<open>Notions the properties are stated with\<close>

subsection \<open>Numbers\<close>

text \<open>
  \<open>plain_notation d\<close>: JavaScript prints the number without an exponent.  That is the case
  for zero and when the decimal point falls after the \<open>n\<close>-th significant digit with
  \<open>-6 < n \<le> 21\<close>, which is a magnitude from \<open>1e-6\<close> up to, not including, \<open>1e21\<close>.
\<close>

definition plain_notation :: "decimal \<Rightarrow> bool" where
  "plain_notation d =
     (let m = normalise d; n = int (sd d) + expo m
      in coef m = 0 \<or> (- 6 < n \<and> n \<le> 21))"

definition minus_sign :: "bool \<Rightarrow> string" where
  "minus_sign neg = (if neg then ''-'' else [])"

definition number_char :: "char \<Rightarrow> bool" where
  "number_char c = (c \<in> set ''0123456789-+.e'')"

subsection \<open>The sum a request asks for\<close>

text \<open>
  \<open>spec_finalBalance\<close> is the balance as the specification words it: the initial balance
  plus the sum of the credit amounts minus the sum of the debit amounts, in exact
  arithmetic.  \<open>net\<close> is what one transaction contributes to it.
\<close>

definition credits :: "CalculateBalanceRequest \<Rightarrow> rat" where
  "credits r =
     sum_list (map (\<lambda>t. dval (amount t)) (filter (\<lambda>t. type t = credit) (transactions r)))"

definition debits :: "CalculateBalanceRequest \<Rightarrow> rat" where
  "debits r =
     sum_list (map (\<lambda>t. dval (amount t)) (filter (\<lambda>t. type t = debit) (transactions r)))"

definition spec_finalBalance :: "CalculateBalanceRequest \<Rightarrow> rat" where
  "spec_finalBalance r = dval (initialBalance r) + credits r - debits r"

definition net :: "Transaction \<Rightarrow> rat" where
  "net t = (case type t of credit \<Rightarrow> dval (amount t) | debit \<Rightarrow> - dval (amount t))"

text \<open>The pointwise inverse of a transaction: a credit for a debit of the same amount.\<close>

definition invert :: "Transaction \<Rightarrow> Transaction" where
  "invert t = t\<lparr>type := (case type t of credit \<Rightarrow> debit | debit \<Rightarrow> credit)\<rparr>"

subsection \<open>Running totals within the precision\<close>

text \<open>
  \<open>signed_amount t\<close> is the Decimal the loop adds for \<open>t\<close>.  \<open>within_precision b ts\<close>: starting
  from the balance \<open>b\<close>, every running total of \<open>ts\<close>, computed exactly, has at most
  \<open>precision\<close> significant digits.
\<close>

definition signed_amount :: "Transaction \<Rightarrow> decimal" where
  "signed_amount t =
     (case type t of credit \<Rightarrow> normalise (amount t) | debit \<Rightarrow> negated (normalise (amount t)))"

fun within_precision :: "decimal \<Rightarrow> Transaction list \<Rightarrow> bool" where
  "within_precision b [] = True"
| "within_precision b (t # ts) =
     (sd (add_exact b (signed_amount t)) \<le> precision \<and>
      within_precision (normalise (add_exact b (signed_amount t))) ts)"

subsection \<open>Fields and their violations\<close>

text \<open>
  The instances of a wildcard field when \<open>transactions\<close> is the array \<open>xs\<close>, the path of the
  field \<open>k\<close> of its \<open>i\<close>-th element, and names for the items of the two wildcard chains.
\<close>

definition element_instances :: "string \<Rightarrow> json list \<Rightarrow> (string \<times> json option) list" where
  "element_instances k xs =
     map (\<lambda>(i, x). (reconstructFieldPath [''transactions'', i, k], get_prop x k))
       (zip (map nat_digits [0..<length xs]) xs)"

definition element_path :: "nat \<Rightarrow> string \<Rightarrow> string" where
  "element_path i k = ''transactions['' @ nat_digits i @ ''].'' @ k"

definition item_message :: "context_item \<Rightarrow> string" where
  "item_message item =
     (case item of StandardValidation f neg m \<Rightarrow> m | CustomValidation f m \<Rightarrow> m)"

definition type_item :: context_item where
  "type_item = StandardValidation (isIn [''credit'', ''debit'']) False
         (''Transaction type must be either '' @ quoted ''credit'' @ '' or '' @ quoted ''debit'')"

definition amount_numeric_item :: context_item where
  "amount_numeric_item = StandardValidation isNumeric False ''Transaction amount must be a number''"

definition amount_float_item :: context_item where
  "amount_float_item = StandardValidation isFloat_min_0 False
         ''Transaction amount must be a non-negative number''"

text \<open>
  The violations of a single field, for every value but an array (of which the validators
  check the elements instead).  \<open>not_numeric\<close>: missing, null, a boolean, an object, a string
  that is no plain decimal numeral, or a number printed with an exponent.  \<open>bad_type\<close>:
  anything but the strings \<^verbatim>\<open>credit\<close> and \<^verbatim>\<open>debit\<close>.  \<open>bad_amount\<close>: not numeric in that
  sense, or negative.
\<close>

definition not_numeric :: "json option \<Rightarrow> bool" where
  "not_numeric v =
     (case v of
        None \<Rightarrow> True
      | Some JNull \<Rightarrow> True
      | Some (JBool b) \<Rightarrow> True
      | Some (JObj kvs) \<Rightarrow> True
      | Some (JStr s) \<Rightarrow> \<not> isNumeric s
      | Some (JNum d) \<Rightarrow> \<not> plain_notation d
      | Some (JArr xs) \<Rightarrow> False)"

definition bad_type :: "json option \<Rightarrow> bool" where
  "bad_type v =
     (case v of
        Some (JStr s) \<Rightarrow> s \<noteq> ''credit'' \<and> s \<noteq> ''debit''
      | Some (JArr xs) \<Rightarrow> False
      | _ \<Rightarrow> True)"

definition bad_amount :: "json option \<Rightarrow> bool" where
  "bad_amount v =
     (case v of
        Some (JStr s) \<Rightarrow> \<not> isNumeric s \<or> \<not> isFloat_min_0 s
      | Some (JNum d) \<Rightarrow> \<not> plain_notation d \<or> dval d < 0
      | Some (JArr xs) \<Rightarrow> False
      | _ \<Rightarrow> True)"

text \<open>The elements of \<open>transactions\<close> when it is an array, and a request with a violation.\<close>

definition elements :: "json option \<Rightarrow> json list" where
  "elements v = (case v of Some (JArr xs) \<Rightarrow> xs | _ \<Rightarrow> [])"

definition schema_violation :: "json \<Rightarrow> bool" where
  "schema_violation body =
     (not_numeric (get_prop body ''initialBalance'') \<or>
      \<not> isArray (get_prop body ''transactions'') \<or>
      (\<exists>t \<in> set (elements (get_prop body ''transactions'')).
         bad_type (get_prop t ''type'') \<or> bad_amount (get_prop t ''amount'')))"

section \<open>Lemmas\<close>

subsection \<open>The value of a Decimal\<close>

lemma dval_Dec_mult10: "dval (Dec (c * 10) e) = dval (Dec c (e + 1))"
proof (cases "0 \<le> e")
  case True
  then show ?thesis by (simp add: dval_def nat_add_distrib)
next
  case False
  show ?thesis
  proof (cases "e = -1")
    case True
    then show ?thesis by (simp add: dval_def)
  next
    case False
    with \<open>\<not> 0 \<le> e\<close> have e: "e + 1 < 0" by simp
    then have "nat (- e) = Suc (nat (- (e + 1)))" by simp
    then show ?thesis using e by (simp add: dval_def)
  qed
qed

lemma dval_strip_zeros: "dval (strip_zeros c e) = dval (Dec c e)"
proof (induction c e rule: strip_zeros.induct)
  case (1 c e)
  show ?case
  proof (cases "c \<noteq> 0 \<and> c mod 10 = 0")
    case True
    then have c: "c = (c div 10) * 10" by auto
    have "dval (strip_zeros c e) = dval (Dec (c div 10) (e + 1))"
      using True 1 by (simp add: strip_zeros.simps [of c e])
    also have "\<dots> = dval (Dec ((c div 10) * 10) e)" by (simp add: dval_Dec_mult10)
    finally show ?thesis using c by simp
  next
    case False
    then show ?thesis by (auto simp: strip_zeros.simps [of c e])
  qed
qed

lemma dval_normalise [simp]: "dval (normalise d) = dval d"
  by (cases d) (simp add: normalise_def dval_strip_zeros, simp add: dval_def)

lemma dval_scale: "e' \<le> e \<Longrightarrow> dval (Dec (c * 10 ^ nat (e - e')) e') = dval (Dec c e)"
proof (induction "nat (e - e')" arbitrary: e')
  case 0
  then show ?case by simp
next
  case (Suc n)
  then have lt: "e' < e" and n: "n = nat (e - (e' + 1))" by auto
  have "nat (e - e') = Suc (nat (e - (e' + 1)))" using lt by simp
  then have "dval (Dec (c * 10 ^ nat (e - e')) e') = dval (Dec ((c * 10 ^ nat (e - (e' + 1))) * 10) e')"
    by (simp add: ac_simps)
  also have "\<dots> = dval (Dec (c * 10 ^ nat (e - (e' + 1))) (e' + 1))"
    by (rule dval_Dec_mult10)
  also have "\<dots> = dval (Dec c e)"
    using Suc.hyps(1) [OF n] lt by simp
  finally show ?case .
qed

lemma dval_same_expo: "dval (Dec (a + b) e) = dval (Dec a e) + dval (Dec b e)"
  by (simp add: dval_def add_divide_distrib distrib_right)

lemma dval_add_exact [simp]: "dval (add_exact x y) = dval x + dval y"
proof -
  obtain a e1 where x: "x = Dec a e1" by (cases x)
  obtain b e2 where y: "y = Dec b e2" by (cases y)
  have "dval (add_exact x y) =
      dval (Dec (a * 10 ^ nat (e1 - min e1 e2)) (min e1 e2)) +
      dval (Dec (b * 10 ^ nat (e2 - min e1 e2)) (min e1 e2))"
    by (simp add: add_exact_def x y Let_def dval_same_expo)
  then show ?thesis by (simp add: dval_scale x y)
qed

lemma dval_negated [simp]: "dval (negated x) = - dval x"
  by (simp add: dval_def negated_def)

lemma finalise_within: "sd x \<le> pr \<Longrightarrow> finalise x pr = normalise x"
  by (simp add: finalise_def Let_def)

subsection \<open>The loop on requests of the declared type\<close>

lemma dval_signed_amount [simp]: "dval (signed_amount t) = net t"
  by (simp add: signed_amount_def net_def split: transaction_type.split)

lemma process_transaction_typed:
  "process_transaction b (Transaction_json t) =
     Inr (finalise (add_exact b (signed_amount t)) precision)"
  by (cases "type t")
    (simp_all add: process_transaction_def destructure_def Transaction_json_def type_json_def
      new_Decimal_def signed_amount_def Decimal_plus_def Decimal_minus_def)

lemma process_transactions_exact:
  "within_precision b ts \<Longrightarrow>
     \<exists>b'. process_transactions b (map Transaction_json ts) = Inr b' \<and>
          dval b' = dval b + sum_list (map net ts)"
proof (induction ts arbitrary: b)
  case Nil
  then show ?case by simp
next
  case (Cons t ts)
  let ?s = "add_exact b (signed_amount t)"
  from Cons.prems have fit: "sd ?s \<le> precision" and rest: "within_precision (normalise ?s) ts"
    by simp_all
  from Cons.IH [OF rest] obtain b' where
    b': "process_transactions (normalise ?s) (map Transaction_json ts) = Inr b'"
        "dval b' = dval (normalise ?s) + sum_list (map net ts)"
    by blast
  have "process_transactions b (map Transaction_json (t # ts)) = Inr b'"
    using b'(1) fit by (simp add: process_transaction_typed finalise_within)
  moreover have "dval b' = dval b + sum_list (map net (t # ts))"
    using b'(2) by simp
  ultimately show ?case by blast
qed

lemma process_transactions_total:
  "\<exists>b'. process_transactions b (map Transaction_json ts) = Inr b'"
  by (induction ts arbitrary: b) (simp_all add: process_transaction_typed)

lemma compute_balance_typed:
  "compute_balance (Request_json r) =
     process_transactions (normalise (initialBalance r)) (map Transaction_json (transactions r))"
  by (simp add: compute_balance_def Request_json_def destructure_def new_Decimal_def iterate_def)

lemma net_invert [simp]: "net (invert t) = - net t"
  by (simp add: net_def invert_def split: transaction_type.split)

lemma sum_net_invert: "sum_list (map net (map invert ts)) = - sum_list (map net ts)"
  by (induction ts) simp_all

lemma sum_net_mset: "mset ts = mset ts' \<Longrightarrow> sum_list (map net ts) = sum_list (map net ts')"
proof -
  assume "mset ts = mset ts'"
  then have "mset (map net ts) = mset (map net ts')" by (metis mset_map)
  then show ?thesis by (metis sum_mset_sum_list)
qed

subsection \<open>Digits\<close>

lemma digit_char_is_digit: "n < 10 \<Longrightarrow> is_digit (digit_char n)"
proof -
  assume "n < 10"
  then have "n \<in> {0, 1, 2, 3, 4, 5, 6, 7, 8, 9}" by auto
  then show ?thesis by (auto simp: is_digit_def digit_char_def)
qed

lemma digit_val_digit_char: "n < 10 \<Longrightarrow> digit_val (digit_char n) = n"
proof -
  assume "n < 10"
  then have "n \<in> {0, 1, 2, 3, 4, 5, 6, 7, 8, 9}" by auto
  then show ?thesis by (auto simp: digit_val_def digit_char_def)
qed

lemma nat_digits_all: "list_all is_digit (nat_digits n)"
proof (induction n rule: nat_digits.induct)
  case (1 n)
  show ?case
  proof (cases "n < 10")
    case True
    then show ?thesis by (simp add: nat_digits.simps [of n] digit_char_is_digit)
  next
    case False
    then show ?thesis using 1 by (simp add: nat_digits.simps [of n] digit_char_is_digit)
  qed
qed

lemma nat_digits_ne [simp]: "nat_digits n \<noteq> []"
  by (simp add: nat_digits.simps [of n])

lemma digits_val_snoc: "digits_val (ds @ [c]) = 10 * digits_val ds + digit_val c"
  by (simp add: digits_val_def)

lemma digits_val_Nil [simp]: "digits_val [] = 0"
  by (simp add: digits_val_def)

lemma digits_val_append:
  "digits_val (xs @ ys) = digits_val xs * 10 ^ length ys + digits_val ys"
proof (induction ys rule: rev_induct)
  case Nil
  then show ?case by simp
next
  case (snoc y ys)
  have "digits_val (xs @ ys @ [y]) = 10 * digits_val (xs @ ys) + digit_val y"
    using digits_val_snoc [of "xs @ ys" y] by simp
  then show ?case by (simp add: snoc digits_val_snoc algebra_simps)
qed

lemma digits_val_nat_digits [simp]: "digits_val (nat_digits n) = n"
proof (induction n rule: nat_digits.induct)
  case (1 n)
  show ?case
  proof (cases "n < 10")
    case True
    then show ?thesis
      using digits_val_snoc [of "[]" "digit_char n"]
      by (simp add: nat_digits.simps [of n] digit_val_digit_char)
  next
    case False
    then show ?thesis
      using 1 by (simp add: nat_digits.simps [of n] digits_val_snoc digit_val_digit_char)
  qed
qed

lemma digits_val_zeros [simp]: "digits_val (replicate z (CHR ''0'')) = 0"
  by (induction z) (simp_all add: digits_val_def digit_val_def)

lemma zeros_all: "list_all is_digit (replicate z (CHR ''0''))"
  by (induction z) (simp_all add: is_digit_def)

lemma nat_digits_lower: "0 < n \<Longrightarrow> 10 ^ (length (nat_digits n) - 1) \<le> n"
proof (induction n rule: nat_digits.induct)
  case (1 n)
  show ?case
  proof (cases "n < 10")
    case True
    then show ?thesis using 1(2) by (simp add: nat_digits.simps [of n])
  next
    case False
    then have pos: "0 < n div 10" by simp
    have len: "length (nat_digits n) = Suc (length (nat_digits (n div 10)))"
      using False by (simp add: nat_digits.simps [of n])
    have "length (nat_digits (n div 10)) \<noteq> 0" by simp
    then obtain l where l: "length (nat_digits (n div 10)) = Suc l"
      by (cases "length (nat_digits (n div 10))") auto
    from 1(1) [OF False pos] have "10 ^ l \<le> n div 10" by (simp add: l)
    then have "10 * 10 ^ l \<le> 10 * (n div 10)" by simp
    also have "\<dots> \<le> n" by simp
    finally show ?thesis by (simp add: len l)
  qed
qed

subsection \<open>Scanning numerals\<close>

lemma takeWhile_digits:
  "list_all is_digit ds \<Longrightarrow> takeWhile is_digit (ds @ r) = ds @ takeWhile is_digit r"
  by (induction ds) simp_all

lemma dropWhile_digits:
  "list_all is_digit ds \<Longrightarrow> dropWhile is_digit (ds @ r) = dropWhile is_digit r"
  by (induction ds) simp_all

lemma takeWhile_all_digits: "list_all is_digit ds \<Longrightarrow> takeWhile is_digit ds = ds"
  by (induction ds) simp_all

lemma dropWhile_all_digits: "list_all is_digit ds \<Longrightarrow> dropWhile is_digit ds = []"
  by (induction ds) simp_all

lemma not_digit [simp]:
  "\<not> is_digit (CHR ''.'')" "\<not> is_digit (CHR ''e'')" "\<not> is_digit (CHR ''-'')"
  "\<not> is_digit (CHR ''+'')"
  by (simp_all add: is_digit_def)

lemma digit_not_sign: "is_digit c \<Longrightarrow> c \<noteq> CHR ''+'' \<and> c \<noteq> CHR ''-'' \<and> c \<noteq> CHR ''.''
    \<and> c \<noteq> CHR ''e'' \<and> c \<noteq> CHR ''E''"
  by (auto simp: is_digit_def)


lemma take_sign_minus:
  "ip \<noteq> [] \<Longrightarrow> list_all is_digit ip \<Longrightarrow>
     take_sign (minus_sign neg @ ip @ r) = ((if neg then Some (CHR ''-'') else None), ip @ r)"
  by (cases ip) (auto simp: take_sign_def minus_sign_def dest: digit_not_sign)

lemma take_exponent_Nil [simp]: "take_exponent [] = (None, [])"
  by (simp add: take_exponent_def)

lemma scan_int:
  assumes "list_all is_digit ip" "ip \<noteq> []"
  shows "scan_numeral (minus_sign neg @ ip) =
    \<lparr>sign = (if neg then Some (CHR ''-'') else None), int_digits = ip, has_point = False,
     frac_digits = [], exponent = None, rest = []\<rparr>"
proof -
  have ts: "take_sign (minus_sign neg @ ip) = ((if neg then Some (CHR ''-'') else None), ip)"
    using take_sign_minus [OF assms(2,1), of neg "[]"] by simp
  show ?thesis
    unfolding scan_numeral_def ts
    using assms(1) by (simp add: takeWhile_all_digits dropWhile_all_digits list_all_iff)
qed

lemma scan_point:
  assumes "list_all is_digit ip" "ip \<noteq> []" "list_all is_digit fp"
  shows "scan_numeral (minus_sign neg @ ip @ CHR ''.'' # fp) =
    \<lparr>sign = (if neg then Some (CHR ''-'') else None), int_digits = ip, has_point = True,
     frac_digits = fp, exponent = None, rest = []\<rparr>"
proof -
  have ts: "take_sign (minus_sign neg @ ip @ CHR ''.'' # fp) =
      ((if neg then Some (CHR ''-'') else None), ip @ CHR ''.'' # fp)"
    by (rule take_sign_minus [OF assms(2,1)])
  show ?thesis
    unfolding scan_numeral_def ts
    using assms(1,3) takeWhile_digits [of ip "CHR ''.'' # fp"] dropWhile_digits [of ip "CHR ''.'' # fp"]
    by (simp add: takeWhile_all_digits dropWhile_all_digits list_all_iff)
qed

lemma take_exponent_sign:
  assumes "list_all is_digit xs" "xs \<noteq> []" "sg = CHR ''+'' \<or> sg = CHR ''-''"
  shows "take_exponent (CHR ''e'' # sg # xs) = (Some (Some sg, xs), [])"
  using assms
  by (auto simp: take_exponent_def take_sign_def takeWhile_all_digits dropWhile_all_digits)

lemma scan_exp_int:
  assumes "list_all is_digit ip" "ip \<noteq> []" "list_all is_digit xs" "xs \<noteq> []"
    "sg = CHR ''+'' \<or> sg = CHR ''-''"
  shows "exponent (scan_numeral (minus_sign neg @ ip @ CHR ''e'' # sg # xs)) \<noteq> None"
proof -
  have ts: "take_sign (minus_sign neg @ ip @ CHR ''e'' # sg # xs) =
      ((if neg then Some (CHR ''-'') else None), ip @ CHR ''e'' # sg # xs)"
    by (rule take_sign_minus [OF assms(2,1)])
  show ?thesis
    unfolding scan_numeral_def ts
    using assms(1) takeWhile_digits [of ip "CHR ''e'' # sg # xs"]
      dropWhile_digits [of ip "CHR ''e'' # sg # xs"] take_exponent_sign [OF assms(3,4,5)]
    by (simp add: list_all_iff)
qed

lemma scan_exp_point:
  assumes "list_all is_digit ip" "ip \<noteq> []" "list_all is_digit fp"
    "list_all is_digit xs" "xs \<noteq> []" "sg = CHR ''+'' \<or> sg = CHR ''-''"
  shows "exponent (scan_numeral (minus_sign neg @ ip @ CHR ''.'' # fp @ CHR ''e'' # sg # xs)) \<noteq> None"
proof -
  have ts: "take_sign (minus_sign neg @ ip @ CHR ''.'' # fp @ CHR ''e'' # sg # xs) =
      ((if neg then Some (CHR ''-'') else None), ip @ CHR ''.'' # fp @ CHR ''e'' # sg # xs)"
    by (rule take_sign_minus [OF assms(2,1)])
  show ?thesis
    unfolding scan_numeral_def ts
    using assms(1,3) takeWhile_digits [of ip "CHR ''.'' # fp @ CHR ''e'' # sg # xs"]
      dropWhile_digits [of ip "CHR ''.'' # fp @ CHR ''e'' # sg # xs"]
      takeWhile_digits [of fp "CHR ''e'' # sg # xs"]
      dropWhile_digits [of fp "CHR ''e'' # sg # xs"]
      take_exponent_sign [OF assms(4,5,6)]
    by (simp add: list_all_iff)
qed

lemma list_all_take_drop:
  "list_all P xs \<Longrightarrow> list_all P (take n xs) \<and> list_all P (drop n xs)"
  by (metis append_take_drop_id list_all_append)

text \<open>The string of a number, by the position of its decimal point.\<close>

lemma number_toString_cases:
  assumes m: "normalise d = Dec c e" and c: "c \<noteq> 0"
  defines "ds \<equiv> nat_digits (nat \<bar>c\<bar>)"
  defines "n \<equiv> int (length ds) + e"
  shows "number_toString d = minus_sign (c < 0) @
     (if int (length ds) \<le> n \<and> n \<le> 21 then ds @ replicate (nat (n - int (length ds))) (CHR ''0'')
      else if 0 < n \<and> n \<le> 21 then take (nat n) ds @ ''.'' @ drop (nat n) ds
      else if - 6 < n \<and> n \<le> 0 then ''0'' @ ''.'' @ (replicate (nat (- n)) (CHR ''0'') @ ds)
      else if length ds = 1
        then ds @ ''e'' @ [if n - 1 < 0 then CHR ''-'' else CHR ''+''] @ nat_digits (nat \<bar>n - 1\<bar>)
        else take 1 ds @ ''.'' @ drop 1 ds @ ''e'' @ [if n - 1 < 0 then CHR ''-'' else CHR ''+'']
               @ nat_digits (nat \<bar>n - 1\<bar>))"
  using c by (simp add: number_toString_def m ds_def n_def Let_def minus_sign_def)

lemma number_toString_zero:
  "coef (normalise d) = 0 \<Longrightarrow> number_toString d = ''0''"
  by (simp add: number_toString_def Let_def)

lemma scan_zero:
  "scan_numeral ''0'' = \<lparr>sign = None, int_digits = ''0'', has_point = False,
     frac_digits = [], exponent = None, rest = []\<rparr>"
  by (simp add: scan_numeral_def take_sign_def is_digit_def)

lemma isNumeric_number: "isNumeric (number_toString d) = plain_notation d"
proof (cases "coef (normalise d) = 0")
  case True
  then show ?thesis
    by (simp add: number_toString_zero isNumeric_def scan_zero plain_notation_def)
next
  case False
  obtain c e where m: "normalise d = Dec c e" by (cases "normalise d")
  with False have c: "c \<noteq> 0" by simp
  define ds where "ds = nat_digits (nat \<bar>c\<bar>)"
  define n where "n = int (length ds) + e"
  have ds: "list_all is_digit ds" "ds \<noteq> []" by (simp_all add: ds_def nat_digits_all)
  have plain: "plain_notation d = (- 6 < n \<and> n \<le> 21)"
    using c by (simp add: plain_notation_def m sd_def n_def ds_def Let_def)
  have len: "0 < int (length ds)" using ds by simp
  note str = number_toString_cases [OF m c, folded ds_def, folded n_def]
  consider (a) "int (length ds) \<le> n" "n \<le> 21"
    | (b) "0 < n" "n < int (length ds)" "n \<le> 21"
    | (c) "- 6 < n" "n \<le> 0"
    | (x) "n \<le> - 6 \<or> 21 < n"
    by linarith
  then show ?thesis
  proof cases
    case a
    have "list_all is_digit (ds @ replicate (nat (n - int (length ds))) (CHR ''0''))"
      using ds by (simp add: zeros_all)
    then show ?thesis
      using a ds plain by (simp add: str isNumeric_def scan_int)
  next
    case b
    have td: "list_all is_digit (take (nat n) ds)" "list_all is_digit (drop (nat n) ds)"
      using list_all_take_drop [OF ds(1)] by simp_all
    have ne: "take (nat n) ds \<noteq> []" "drop (nat n) ds \<noteq> []"
      using b ds by auto
    show ?thesis
      using b plain td ne by (simp add: str isNumeric_def scan_point)
  next
    case c
    have z: "list_all is_digit ''0''" by (simp add: is_digit_def)
    have fp: "list_all is_digit (replicate (nat (- n)) (CHR ''0'') @ ds)"
      using ds by (simp add: zeros_all)
    have "scan_numeral (minus_sign (c < 0) @ ''0'' @ CHR ''.'' # (replicate (nat (- n)) (CHR ''0'') @ ds)) =
       \<lparr>sign = (if c < 0 then Some (CHR ''-'') else None), int_digits = ''0'', has_point = True,
        frac_digits = replicate (nat (- n)) (CHR ''0'') @ ds, exponent = None, rest = []\<rparr>"
      by (rule scan_point [OF z _ fp]) simp
    moreover have "\<not> int (length ds) \<le> n" using \<open>n \<le> 0\<close> ds(2) by (cases ds) auto
    ultimately show ?thesis
      using c plain ds(2) \<open>- 6 < n\<close> \<open>n \<le> 0\<close> by (simp add: str isNumeric_def)
  next
    case x
    have xs: "list_all is_digit (nat_digits (nat \<bar>n - 1\<bar>))" "nat_digits (nat \<bar>n - 1\<bar>) \<noteq> []"
      by (simp_all add: nat_digits_all)
    have sg: "(if n - 1 < 0 then CHR ''-'' else CHR ''+'') = CHR ''+'' \<or>
              (if n - 1 < 0 then CHR ''-'' else CHR ''+'') = CHR ''-''" by simp
    show ?thesis
    proof (cases "length ds = 1")
      case True
      have "exponent (scan_numeral (minus_sign (c < 0) @ ds @ CHR ''e'' #
               (if n - 1 < 0 then CHR ''-'' else CHR ''+'') # nat_digits (nat \<bar>n - 1\<bar>))) \<noteq> None"
        by (rule scan_exp_int [OF ds xs sg])
      then show ?thesis
        using x True plain len by (auto simp: str isNumeric_def Let_def)
    next
      case False
      have td: "list_all is_digit (take 1 ds)" "list_all is_digit (drop 1 ds)"
        using list_all_take_drop [OF ds(1)] by simp_all
      have ne: "take 1 ds \<noteq> []" using ds by (cases ds) auto
      have "exponent (scan_numeral (minus_sign (c < 0) @ take 1 ds @ CHR ''.'' # drop 1 ds @ CHR ''e'' #
               (if n - 1 < 0 then CHR ''-'' else CHR ''+'') # nat_digits (nat \<bar>n - 1\<bar>))) \<noteq> None"
        by (rule scan_exp_point [OF td(1) ne td(2) xs sg])
      then show ?thesis
        using x False plain len by (auto simp: str isNumeric_def Let_def)
    qed
  qed
qed

lemma numeral_decimal_plain:
  "numeral_decimal \<lparr>sign = (if neg then Some (CHR ''-'') else None), int_digits = ip,
      has_point = pt, frac_digits = fp, exponent = None, rest = r\<rparr> =
   Dec (if neg then - int (digits_val (ip @ fp)) else int (digits_val (ip @ fp)))
       (- int (length fp))"
  by (simp add: numeral_decimal_def)

lemma signed_abs: "c \<noteq> 0 \<Longrightarrow> (if c < 0 then - \<bar>c\<bar> else \<bar>c\<bar>) = (c::int)"
  by simp

lemma dval_Dec_pow: "dval (Dec (c * 10 ^ nat e) 0) = dval (Dec c e)" if "0 \<le> e"
  using dval_scale [of 0 e c] that by simp

lemma scan_plain_number:
  assumes "plain_notation d"
  shows "rest (scan_numeral (number_toString d)) = [] \<and>
         int_digits (scan_numeral (number_toString d)) \<noteq> [] \<and>
         dval (numeral_decimal (scan_numeral (number_toString d))) = dval d"
proof (cases "coef (normalise d) = 0")
  case True
  have "dval d = dval (normalise d)" by simp
  also have "\<dots> = 0" using True by (simp add: dval_def)
  finally show ?thesis
    using True by (simp add: number_toString_zero scan_zero numeral_decimal_def dval_def
        digits_val_def digit_val_def)
next
  case False
  obtain c e where m: "normalise d = Dec c e" by (cases "normalise d")
  with False have c: "c \<noteq> 0" by simp
  define ds where "ds = nat_digits (nat \<bar>c\<bar>)"
  define n where "n = int (length ds) + e"
  have ds: "list_all is_digit ds" "ds \<noteq> []" by (simp_all add: ds_def nat_digits_all)
  have dv: "int (digits_val ds) = \<bar>c\<bar>" by (simp add: ds_def)
  have plain: "- 6 < n" "n \<le> 21"
    using c assms by (simp_all add: plain_notation_def m sd_def n_def ds_def Let_def)
  have val: "dval d = dval (Dec c e)" using m dval_normalise [of d] by simp
  note str = number_toString_cases [OF m c, folded ds_def, folded n_def]
  consider (a) "int (length ds) \<le> n"
    | (b) "0 < n" "n < int (length ds)"
    | (c) "n \<le> 0"
    by linarith
  then show ?thesis
  proof cases
    case a
    define z where "z = nat (n - int (length ds))"
    have e: "0 \<le> e" "z = nat e" using a by (simp_all add: n_def z_def)
    have all: "list_all is_digit (ds @ replicate z (CHR ''0''))"
      using ds by (simp add: zeros_all)
    have sc: "scan_numeral (number_toString d) =
      \<lparr>sign = (if c < 0 then Some (CHR ''-'') else None),
       int_digits = ds @ replicate z (CHR ''0''), has_point = False,
       frac_digits = [], exponent = None, rest = []\<rparr>"
      using a plain ds scan_int [OF all, of "c < 0"] by (simp add: str z_def)
    have "numeral_decimal (scan_numeral (number_toString d)) = Dec (c * 10 ^ nat e) 0"
      using c dv by (simp add: sc numeral_decimal_plain digits_val_append e)
    then show ?thesis
      using ds by (simp add: sc val dval_Dec_pow [OF e(1)])
  next
    case b
    have td: "list_all is_digit (take (nat n) ds)" "list_all is_digit (drop (nat n) ds)"
      using list_all_take_drop [OF ds(1)] by simp_all
    have ne: "take (nat n) ds \<noteq> []" using b ds by auto
    have sc: "scan_numeral (number_toString d) =
      \<lparr>sign = (if c < 0 then Some (CHR ''-'') else None),
       int_digits = take (nat n) ds, has_point = True,
       frac_digits = drop (nat n) ds, exponent = None, rest = []\<rparr>"
      using b plain scan_point [OF td(1) ne td(2), of "c < 0"] by (simp add: str)
    have len: "- int (length (drop (nat n) ds)) = e"
      using b by (simp add: n_def)
    have "numeral_decimal (scan_numeral (number_toString d)) = Dec c e"
      using c dv len by (simp add: sc numeral_decimal_plain)
    then show ?thesis
      using ne by (simp add: sc val)
  next
    case c
    define z where "z = nat (- n)"
    have z: "list_all is_digit ''0''" by (simp add: is_digit_def)
    have fp: "list_all is_digit (replicate z (CHR ''0'') @ ds)"
      using ds by (simp add: zeros_all)
    have nle: "\<not> int (length ds) \<le> n" using c ds(2) by (cases ds) auto
    have "scan_numeral (minus_sign (c < 0) @ ''0'' @ CHR ''.'' # (replicate z (CHR ''0'') @ ds)) =
       \<lparr>sign = (if c < 0 then Some (CHR ''-'') else None), int_digits = ''0'', has_point = True,
        frac_digits = replicate z (CHR ''0'') @ ds, exponent = None, rest = []\<rparr>"
      by (rule scan_point [OF z _ fp]) simp
    then have sc: "scan_numeral (number_toString d) =
       \<lparr>sign = (if c < 0 then Some (CHR ''-'') else None), int_digits = ''0'', has_point = True,
        frac_digits = replicate z (CHR ''0'') @ ds, exponent = None, rest = []\<rparr>"
      using c plain nle by (simp add: str z_def)
    have zeros: "''0'' @ replicate z (CHR ''0'') = replicate (Suc z) (CHR ''0'')" by simp
    have "digits_val (''0'' @ replicate z (CHR ''0'') @ ds) = digits_val ds"
      using digits_val_append [of "replicate (Suc z) (CHR ''0'')" ds] digits_val_zeros [of "Suc z"]
      by (simp del: digits_val_zeros)
    moreover have "- int (length (replicate z (CHR ''0'') @ ds)) = e"
      using c by (simp add: n_def z_def)
    ultimately have "numeral_decimal (scan_numeral (number_toString d)) = Dec c e"
      using \<open>c \<noteq> 0\<close> dv by (simp add: sc numeral_decimal_plain)
    then show ?thesis
      by (simp add: sc val)
  qed
qed

lemma plain_magnitude:
  assumes "plain_notation d" "dval d \<noteq> 0"
  shows "1 / 10 ^ 6 \<le> \<bar>dval d\<bar>"
proof -
  obtain c e where m: "normalise d = Dec c e" by (cases "normalise d")
  have val: "dval d = dval (Dec c e)" using m dval_normalise [of d] by simp
  have "dval (Dec 0 e) = 0" by (simp add: dval_def)
  with assms(2) val have c: "c \<noteq> 0" by auto
  define k where "k = length (nat_digits (nat \<bar>c\<bar>))"
  have n: "- 6 < int k + e"
    using c assms(1) by (simp add: plain_notation_def m sd_def k_def Let_def)
  have low: "10 ^ (k - 1) \<le> nat \<bar>c\<bar>"
    unfolding k_def by (rule nat_digits_lower) (use c in simp)
  show ?thesis
  proof (cases "0 \<le> e")
    case True
    have "(1::int) \<le> \<bar>c\<bar>" "(1::int) \<le> 10 ^ nat e" using c by simp_all
    then have "(1::int) * 1 \<le> \<bar>c\<bar> * 10 ^ nat e"
      by (intro mult_mono) simp_all
    then have "(1::int) \<le> \<bar>c\<bar> * 10 ^ nat e" by simp
    then have "(1::rat) \<le> of_int (\<bar>c\<bar> * 10 ^ nat e)"
      by (metis of_int_1_le_iff)
    then have "(1::rat) \<le> \<bar>dval (Dec c e)\<bar>"
      using True by (simp add: dval_def abs_mult)
    then show ?thesis unfolding val by simp
  next
    case False
    define j where "j = nat (- e)"
    have j: "j \<le> k + 5" using n False by (simp add: j_def)
    have k1: "k \<noteq> 0" by (simp add: k_def)
    have "(10::nat) ^ j \<le> 10 ^ (k + 5)" using j by (simp add: power_increasing)
    also have "\<dots> = 10 ^ (k - 1) * 10 ^ 6"
    proof -
      obtain l where "k = Suc l" using k1 by (cases k) auto
      then show ?thesis by (simp add: power_add)
    qed
    also have "\<dots> \<le> nat \<bar>c\<bar> * 10 ^ 6" using low by simp
    finally have "(10::nat) ^ j \<le> nat \<bar>c\<bar> * 10 ^ 6" .
    then have "(of_nat (10 ^ j) :: rat) \<le> of_nat (nat \<bar>c\<bar> * 10 ^ 6)"
      by (simp only: of_nat_le_iff)
    then have "(10::rat) ^ j \<le> \<bar>of_int c\<bar> * 10 ^ 6"
      by simp
    then have "(1::rat) / 10 ^ 6 \<le> \<bar>of_int c\<bar> / 10 ^ j"
      by (simp add: field_simps)
    then have "(1::rat) / 10 ^ 6 \<le> \<bar>dval (Dec c e)\<bar>"
      using False by (simp add: dval_def j_def)
    then show ?thesis unfolding val .
  qed
qed

lemma tiny: "(1::rat) / 2 ^ 1075 < 1 / 10 ^ 6"
  by simp

lemma bad_strings:
  "int_digits (scan_numeral s) \<noteq> [] \<Longrightarrow> s \<notin> {[], ''.'', '','', ''-'', ''+''}"
  by (auto simp: scan_numeral_def take_sign_def take_exponent_def is_digit_def)

lemma isFloat_number:
  assumes "plain_notation d"
  shows "isFloat_min_0 (number_toString d) = (0 \<le> dval d)"
proof -
  note sc = scan_plain_number [OF assms]
  have "parseFloat_ge_0 (scan_numeral (number_toString d)) = (- (1 / 2 ^ 1075) \<le> dval d)"
    using sc by (simp add: parseFloat_ge_0_def)
  also have "\<dots> = (0 \<le> dval d)"
  proof (cases "0 \<le> dval d")
    case True
    have "- (1 / 2 ^ 1075) \<le> (0::rat)" by simp
    with True show ?thesis by linarith
  next
    case False
    then have "dval d \<noteq> 0" by simp
    from plain_magnitude [OF assms this] False tiny have "dval d < - (1 / 2 ^ 1075)"
      by linarith
    with False show ?thesis by simp
  qed
  finally show ?thesis
    using sc bad_strings [of "number_toString d"] by (simp add: isFloat_min_0_def)
qed

subsection \<open>Field selection\<close>

lemma get_prop_primitive: "is_primitive (Some x) \<Longrightarrow> get_prop x k = None"
  by (cases x) (simp_all add: is_primitive_def)

lemma selectFields_Key:
  "selectFields (Some x) [Key k] p = [(reconstructFieldPath (p @ [k]), get_prop x k)]"
  by (simp add: key_name_def get_prop_primitive)

lemma selectFields_Wildcard_array:
  "selectFields (Some (JArr xs)) [Wildcard, Key k] p =
     map (\<lambda>(i, x). (reconstructFieldPath (p @ [i, k]), get_prop x k))
       (zip (map nat_digits [0..<length xs]) xs)"
proof -
  have "concat (map (\<lambda>(i, x). selectFields (Some x) [Key k] (p @ [i])) ys) =
        map (\<lambda>(i, x). (reconstructFieldPath (p @ [i, k]), get_prop x k)) ys" for ys
    by (induction ys) (auto simp: selectFields_Key simp del: selectFields.simps)
  then show ?thesis
    by (simp add: is_primitive_def entries_def)
qed

lemma selectFields_body_Key:
  "get_prop body a = Some x \<Longrightarrow>
     selectFields (Some body) (Key a # segs) [] = selectFields (Some x) segs [a]"
  by (cases body) (simp_all add: is_primitive_def)

declare selectFields.simps [simp del]


lemma selectFields_elements:
  "get_prop body ''transactions'' = Some (JArr xs) \<Longrightarrow>
     selectFields (Some body) [Key ''transactions'', Wildcard, Key k] [] = element_instances k xs"
  by (simp add: selectFields_body_Key selectFields_Wildcard_array element_instances_def)

lemma element_instance_nth:
  "i < length xs \<Longrightarrow>
     (reconstructFieldPath [''transactions'', nat_digits i, k], get_prop (xs ! i) k)
       \<in> set (element_instances k xs)"
  unfolding element_instances_def by (force simp: set_zip)

lemma element_instance_value:
  "(q, v) \<in> set (element_instances k xs) \<Longrightarrow> \<exists>x \<in> set xs. v = get_prop x k"
  unfolding element_instances_def by (auto dest: set_zip_rightD)

subsection \<open>Errors of a chain\<close>

lemma run_item_path_msg:
  "e \<in> set (run_item item p v) \<Longrightarrow> e_path e = p \<and> e_msg e = item_message item"
  by (cases item) (auto simp: item_message_def field_error_def Let_def split: if_splits)

lemma validationResult_chains:
  "validationResult body =
     run_chain body initialBalance_chain @ run_chain body transactions_chain @
     run_chain body type_chain @ run_chain body amount_chain"
  by (simp add: validationResult_def calculateBalanceValidation_def)

lemma path_initialBalance: "reconstructFieldPath [''initialBalance''] = ''initialBalance''"
  by (simp add: reconstructFieldPath_def)

lemma path_transactions: "reconstructFieldPath [''transactions''] = ''transactions''"
  by (simp add: reconstructFieldPath_def is_digit_def)

lemma run_initialBalance_chain:
  "run_chain body initialBalance_chain =
     run_item (StandardValidation isNumeric False ''initialBalance must be a number'')
       ''initialBalance'' (get_prop body ''initialBalance'')"
  by (simp add: run_chain_def initialBalance_chain_def selectFields_Key path_initialBalance)

lemma run_transactions_chain:
  "run_chain body transactions_chain =
     run_item (CustomValidation isArray ''transactions must be an array'')
       ''transactions'' (get_prop body ''transactions'') @
     run_item (StandardValidation isEmpty True ''transactions array cannot be empty'')
       ''transactions'' (get_prop body ''transactions'')"
  by (simp add: run_chain_def transactions_chain_def selectFields_Key path_transactions)

lemma run_type_chain:
  "get_prop body ''transactions'' = Some (JArr xs) \<Longrightarrow>
     run_chain body type_chain =
       concat (map (\<lambda>(p, v). run_item type_item p v) (element_instances ''type'' xs))"
  unfolding run_chain_def type_chain_def type_item_def Let_def fst_conv snd_conv
  by (simp only: selectFields_elements list.map concat.simps append_Nil2)

lemma run_amount_chain:
  "get_prop body ''transactions'' = Some (JArr xs) \<Longrightarrow>
     run_chain body amount_chain =
       concat (map (\<lambda>(p, v). run_item amount_numeric_item p v) (element_instances ''amount'' xs)) @
       concat (map (\<lambda>(p, v). run_item amount_float_item p v) (element_instances ''amount'' xs))"
  unfolding run_chain_def amount_chain_def amount_numeric_item_def amount_float_item_def
    Let_def fst_conv snd_conv
  by (simp only: selectFields_elements list.map concat.simps append_Nil2)

lemma toString_JNum [simp]: "toString (Some (JNum d)) = number_toString d"
  by (simp add: toString_def)

lemma toString_JObj [simp]: "toString (Some (JObj kvs)) = ''[object Object]''"
  by (simp add: toString_def)

lemma toString_JStr [simp]: "toString (Some (JStr s)) = s"
  by (simp add: toString_def)

lemma toString_empty [simp]: "toString None = []" "toString (Some JNull) = []"
  by (simp_all add: toString_def)

lemma toString_JBool [simp]: "toString (Some (JBool b)) = (if b then ''true'' else ''false'')"
  by (simp add: toString_def)

lemma values_of_scalar [simp]:
  "values_of None = [None]" "values_of (Some JNull) = [Some JNull]"
  "values_of (Some (JBool b)) = [Some (JBool b)]" "values_of (Some (JNum d)) = [Some (JNum d)]"
  "values_of (Some (JStr s)) = [Some (JStr s)]" "values_of (Some (JObj kvs)) = [Some (JObj kvs)]"
  by (simp_all add: values_of_def)

lemma Request_json_props [simp]:
  "get_prop (Request_json r) ''initialBalance'' = Some (JNum (initialBalance r))"
  "get_prop (Request_json r) ''transactions'' = Some (JArr (map Transaction_json (transactions r)))"
  by (simp_all add: Request_json_def)

lemma Transaction_json_props [simp]:
  "get_prop (Transaction_json t) ''type'' = Some (type_json (type t))"
  "get_prop (Transaction_json t) ''amount'' = Some (JNum (amount t))"
  by (simp_all add: Transaction_json_def)

lemma run_item_path: "run_item item p v = [] \<longleftrightarrow> run_item item q v = []"
  by (cases item) (auto simp: Let_def)

lemma elements_all:
  "(\<forall>(p, v) \<in> set (element_instances k xs). run_item item p v = []) \<longleftrightarrow>
   (\<forall>x \<in> set xs. run_item item [] (get_prop x k) = [])"
proof
  assume l: "\<forall>(p, v) \<in> set (element_instances k xs). run_item item p v = []"
  show "\<forall>x \<in> set xs. run_item item [] (get_prop x k) = []"
  proof
    fix x assume "x \<in> set xs"
    then obtain i where i: "i < length xs" "xs ! i = x" by (auto simp: in_set_conv_nth)
    from element_instance_nth [OF i(1), of k] l i(2)
    have "run_item item (reconstructFieldPath [''transactions'', nat_digits i, k]) (get_prop x k) = []"
      by auto
    then show "run_item item [] (get_prop x k) = []" using run_item_path by blast
  qed
next
  assume r: "\<forall>x \<in> set xs. run_item item [] (get_prop x k) = []"
  show "\<forall>(p, v) \<in> set (element_instances k xs). run_item item p v = []"
  proof (clarify)
    fix p v assume "(p, v) \<in> set (element_instances k xs)"
    from element_instance_value [OF this] r have "run_item item [] v = []" by auto
    then show "run_item item p v = []" using run_item_path by blast
  qed
qed

lemma concat_instances_Nil:
  "concat (map (\<lambda>(p, v). run_item item p v) (element_instances k xs)) = [] \<longleftrightarrow>
   (\<forall>x \<in> set xs. run_item item [] (get_prop x k) = [])"
  using elements_all [of k xs item] by auto

lemma not_empty_objects:
  "run_item (StandardValidation isEmpty True m) p (Some (JArr (map Transaction_json ts))) = []"
  by (induction ts) (simp_all add: values_of_def isEmpty_def Transaction_json_def Let_def)

lemma type_item_typed: "run_item type_item p (Some (type_json ty)) = []"
  by (cases ty) (simp_all add: type_item_def type_json_def isIn_def Let_def)

lemma amount_items_typed:
  "run_item amount_numeric_item p (Some (JNum d)) = [] \<and>
   run_item amount_float_item p (Some (JNum d)) = [] \<longleftrightarrow> plain_notation d \<and> 0 \<le> dval d"
  using isFloat_number [of d]
  by (auto simp: amount_numeric_item_def amount_float_item_def Let_def isNumeric_number)

text \<open>Which requests of the declared type the validator accepts.\<close>

lemma typed_initialBalance_chain:
  "run_chain (Request_json r) initialBalance_chain =
     (if plain_notation (initialBalance r) then []
      else [field_error ''initialBalance must be a number'' ''initialBalance''
              (Some (JNum (initialBalance r)))])"
  by (simp add: run_initialBalance_chain Let_def isNumeric_number)

lemma typed_transactions_chain: "run_chain (Request_json r) transactions_chain = []"
  by (simp add: run_transactions_chain not_empty_objects isArray_def del: run_item.simps(1))

lemma typed_type_chain: "run_chain (Request_json r) type_chain = []"
  unfolding run_type_chain [OF Request_json_props(2)] concat_instances_Nil
  by (simp add: type_item_typed)

lemma typed_amount_chain:
  "run_chain (Request_json r) amount_chain = [] \<longleftrightarrow>
     (\<forall>t \<in> set (transactions r). plain_notation (amount t) \<and> 0 \<le> dval (amount t))"
  unfolding run_amount_chain [OF Request_json_props(2)] append_is_Nil_conv concat_instances_Nil
  using amount_items_typed by (simp del: run_item.simps) blast

lemma typed_request_accepted:
  "validationResult (Request_json r) = [] \<longleftrightarrow>
     plain_notation (initialBalance r) \<and>
     (\<forall>t \<in> set (transactions r). plain_notation (amount t) \<and> 0 \<le> dval (amount t))"
  by (simp add: validationResult_chains typed_initialBalance_chain typed_transactions_chain
      typed_type_chain typed_amount_chain)

lemma elements_member:
  "t \<in> set (elements v) \<Longrightarrow> \<exists>xs. v = Some (JArr xs) \<and> t \<in> set xs"
  by (auto simp: elements_def split: option.splits json.splits)

subsection \<open>Violations the validator detects\<close>

lemma isNumeric_words [simp]:
  "\<not> isNumeric []" "\<not> isNumeric ''true''" "\<not> isNumeric ''false''"
  "\<not> isNumeric ''[object Object]''"
  by (simp_all add: isNumeric_def scan_numeral_def take_sign_def take_exponent_def is_digit_def)

lemma standard_fails:
  "values_of v = [v] \<Longrightarrow> \<not> f (toString v) \<Longrightarrow>
     run_item (StandardValidation f False m) p v \<noteq> []"
  by (simp add: Let_def)

lemma not_numeric_fails:
  assumes "not_numeric v"
  shows "values_of v = [v] \<and> \<not> isNumeric (toString v)"
proof (cases v)
  case None
  then show ?thesis by simp
next
  case (Some x)
  with assms show ?thesis
    by (cases x) (simp_all add: not_numeric_def isNumeric_number)
qed

lemma not_numeric_error:
  "not_numeric v \<Longrightarrow> run_item (StandardValidation isNumeric False m) p v \<noteq> []"
  using not_numeric_fails standard_fails by blast

lemma digit_number_char: "is_digit c \<Longrightarrow> number_char c"
  by (auto simp: is_digit_def number_char_def)

lemma digits_number_chars: "list_all is_digit ds \<Longrightarrow> list_all number_char ds"
  by (induction ds) (simp_all add: digit_number_char)

lemma number_chars: "list_all number_char (number_toString d)"
proof (cases "coef (normalise d) = 0")
  case True
  then show ?thesis by (simp add: number_toString_zero number_char_def)
next
  case False
  obtain c e where m: "normalise d = Dec c e" by (cases "normalise d")
  with False have c: "c \<noteq> 0" by simp
  define ds where "ds = nat_digits (nat \<bar>c\<bar>)"
  define n where "n = int (length ds) + e"
  have "list_all is_digit ds" by (simp add: ds_def nat_digits_all)
  then have ds: "list_all number_char ds" "list_all number_char (take k ds)"
    "list_all number_char (drop k ds)" for k
    using list_all_take_drop [of is_digit ds k] by (simp_all add: digits_number_chars)
  have x: "list_all number_char (nat_digits k)" for k
    by (simp add: digits_number_chars nat_digits_all)
  have z: "list_all number_char (replicate k (CHR ''0''))" for k
    by (simp add: digits_number_chars zeros_all)
  have s: "list_all number_char (minus_sign b)" for b
    by (simp add: minus_sign_def number_char_def)
  have o: "number_char (CHR ''0'')" "number_char (CHR ''.'')" "number_char (CHR ''e'')"
    "number_char (CHR ''-'')" "number_char (CHR ''+'')"
    by (simp_all add: number_char_def)
  show ?thesis
    unfolding number_toString_cases [OF m c, folded ds_def, folded n_def]
    using ds x z s o by simp
qed

lemma number_not_type: "\<not> isIn [''credit'', ''debit''] (number_toString d)"
proof
  assume "isIn [''credit'', ''debit''] (number_toString d)"
  then consider "number_toString d = ''credit''" | "number_toString d = ''debit''"
    by (auto simp: isIn_def)
  then have "\<not> list_all number_char (number_toString d)"
    by cases (simp_all add: number_char_def)
  with number_chars [of d] show False by simp
qed

lemma isIn_words [simp]:
  "\<not> isIn [''credit'', ''debit''] []" "\<not> isIn [''credit'', ''debit''] ''true''"
  "\<not> isIn [''credit'', ''debit''] ''false''" "\<not> isIn [''credit'', ''debit''] ''[object Object]''"
  by (simp_all add: isIn_def)

lemma bad_type_fails:
  assumes "bad_type v"
  shows "values_of v = [v] \<and> \<not> isIn [''credit'', ''debit''] (toString v)"
proof (cases v)
  case None
  then show ?thesis by simp
next
  case (Some x)
  with assms show ?thesis
    by (cases x) (simp_all add: bad_type_def number_not_type, simp add: isIn_def)
qed

lemma bad_type_error: "bad_type v \<Longrightarrow> run_item type_item p v \<noteq> []"
  unfolding type_item_def using bad_type_fails standard_fails by blast

lemma bad_amount_fails:
  assumes "bad_amount v"
  shows "values_of v = [v] \<and> (\<not> isNumeric (toString v) \<or> \<not> isFloat_min_0 (toString v))"
proof (cases v)
  case None
  then show ?thesis by simp
next
  case (Some x)
  with assms show ?thesis
  proof (cases x)
    case (JNum d)
    with Some assms have "\<not> plain_notation d \<or> dval d < 0" by (simp add: bad_amount_def)
    then show ?thesis
      using isFloat_number [of d] by (auto simp: Some JNum isNumeric_number)
  qed (simp_all add: bad_amount_def)
qed

lemma bad_amount_error:
  "bad_amount v \<Longrightarrow>
     run_item amount_numeric_item p v \<noteq> [] \<or> run_item amount_float_item p v \<noteq> []"
  unfolding amount_numeric_item_def amount_float_item_def
  using bad_amount_fails standard_fails by blast

lemma digits_no_point: "CHR ''.'' \<notin> set (nat_digits i)"
  using nat_digits_all [of i] by (auto simp: list_all_iff)

lemma element_path_type:
  "reconstructFieldPath [''transactions'', nat_digits i, ''type''] = element_path i ''type''"
  using digits_no_point [of i] nat_digits_all [of i]
  by (simp add: reconstructFieldPath_def element_path_def is_digit_def)

lemma element_path_amount:
  "reconstructFieldPath [''transactions'', nat_digits i, ''amount''] = element_path i ''amount''"
  using digits_no_point [of i] nat_digits_all [of i]
  by (simp add: reconstructFieldPath_def element_path_def is_digit_def)

lemma error_listed:
  "run_item item p v \<noteq> [] \<Longrightarrow> \<exists>e \<in> set (run_item item p v). e_path e = p"
  using run_item_path_msg [of _ item p v] by (cases "run_item item p v") auto

lemma in_concat_instances:
  "(p, v) \<in> set xs \<Longrightarrow> e \<in> set (run_item item p v) \<Longrightarrow>
     e \<in> set (concat (map (\<lambda>(p, v). run_item item p v) xs))"
  by force

subsection \<open>The response of the route\<close>

lemma sum_net: "sum_list (map net ts) =
    sum_list (map (\<lambda>t. dval (amount t)) (filter (\<lambda>t. type t = credit) ts)) -
    sum_list (map (\<lambda>t. dval (amount t)) (filter (\<lambda>t. type t = debit) ts))"
  by (induction ts) (auto simp: net_def split: transaction_type.split)

lemma compute_balance_exact:
  assumes "within_precision (normalise (initialBalance r)) (transactions r)"
  shows "\<exists>b. compute_balance (Request_json r) = Inr b \<and> dval b = spec_finalBalance r"
proof -
  from process_transactions_exact [OF assms] obtain b where
    "process_transactions (normalise (initialBalance r)) (map Transaction_json (transactions r)) = Inr b"
    "dval b = dval (normalise (initialBalance r)) + sum_list (map net (transactions r))"
    by blast
  then have "compute_balance (Request_json r) = Inr b \<and> dval b = spec_finalBalance r"
    by (simp add: compute_balance_typed spec_finalBalance_def credits_def debits_def sum_net)
  then show ?thesis by blast
qed

lemma accepted_next:
  "validationResult body = [] \<Longrightarrow>
     post_calculate_balance toNumber body = calculate_balance toNumber body"
  by (simp add: post_calculate_balance_def handleValidationErrors_def)

lemma rejected:
  "validationResult body \<noteq> [] \<Longrightarrow> post_calculate_balance toNumber body =
     (400, Failure \<lparr>error = ''Validation failed'', message = None,
                    details = Some (validationResult body)\<rparr>)"
  by (simp add: post_calculate_balance_def handleValidationErrors_def Let_def)

subsection \<open>Every violation is detected and listed\<close>

lemma violation_detected:
  assumes "schema_violation body"
  shows "validationResult body \<noteq> []"
proof -
  from assms consider
      (ib) "not_numeric (get_prop body ''initialBalance'')"
    | (tx) "\<not> isArray (get_prop body ''transactions'')"
    | (el) xs t where "get_prop body ''transactions'' = Some (JArr xs)" "t \<in> set xs"
        "bad_type (get_prop t ''type'') \<or> bad_amount (get_prop t ''amount'')"
    using elements_member [of _ "get_prop body ''transactions''"]
    unfolding schema_violation_def by blast
  then show ?thesis
  proof cases
    case ib
    then have "run_chain body initialBalance_chain \<noteq> []"
      unfolding run_initialBalance_chain by (rule not_numeric_error)
    then show ?thesis by (simp add: validationResult_chains)
  next
    case tx
    then have "run_chain body transactions_chain \<noteq> []"
      unfolding run_transactions_chain by simp
    then show ?thesis by (simp add: validationResult_chains)
  next
    case el
    from el(3) show ?thesis
    proof
      assume "bad_type (get_prop t ''type'')"
      then have "run_item type_item [] (get_prop t ''type'') \<noteq> []" by (rule bad_type_error)
      with el(2) have "run_chain body type_chain \<noteq> []"
        unfolding run_type_chain [OF el(1)] concat_instances_Nil by blast
      then show ?thesis by (simp add: validationResult_chains)
    next
      assume "bad_amount (get_prop t ''amount'')"
      then have "run_item amount_numeric_item [] (get_prop t ''amount'') \<noteq> [] \<or>
                 run_item amount_float_item [] (get_prop t ''amount'') \<noteq> []"
        by (rule bad_amount_error)
      with el(2) have "run_chain body amount_chain \<noteq> []"
        unfolding run_amount_chain [OF el(1)] append_is_Nil_conv concat_instances_Nil by blast
      then show ?thesis by (simp add: validationResult_chains)
    qed
  qed
qed

lemma listed_initialBalance:
  assumes "not_numeric (get_prop body ''initialBalance'')"
  shows "\<exists>e \<in> set (validationResult body). e_path e = ''initialBalance''"
proof -
  from not_numeric_error [OF assms] error_listed
  obtain e where "e \<in> set (run_chain body initialBalance_chain)" "e_path e = ''initialBalance''"
    unfolding run_initialBalance_chain by blast
  then show ?thesis by (auto simp: validationResult_chains)
qed

lemma listed_transactions:
  assumes "\<not> isArray (get_prop body ''transactions'')"
  shows "\<exists>e \<in> set (validationResult body). e_path e = ''transactions''"
proof -
  have "field_error ''transactions must be an array'' ''transactions''
          (get_prop body ''transactions'') \<in> set (run_chain body transactions_chain)"
    using assms unfolding run_transactions_chain by simp
  then show ?thesis
    by (auto simp: validationResult_chains field_error_def intro!: bexI)
qed

lemma listed_type:
  assumes "get_prop body ''transactions'' = Some (JArr xs)" "i < length xs"
    "bad_type (get_prop (xs ! i) ''type'')"
  shows "\<exists>e \<in> set (validationResult body). e_path e = element_path i ''type''"
proof -
  have inst: "(element_path i ''type'', get_prop (xs ! i) ''type'')
      \<in> set (element_instances ''type'' xs)"
    using element_instance_nth [OF assms(2), of "''type''"] by (simp add: element_path_type)
  from bad_type_error [OF assms(3)] error_listed obtain e where
    e: "e \<in> set (run_item type_item (element_path i ''type'') (get_prop (xs ! i) ''type''))"
       "e_path e = element_path i ''type''" by blast
  from in_concat_instances [OF inst e(1)] have "e \<in> set (run_chain body type_chain)"
    unfolding run_type_chain [OF assms(1)] .
  with e(2) show ?thesis by (auto simp: validationResult_chains)
qed

lemma listed_amount:
  assumes "get_prop body ''transactions'' = Some (JArr xs)" "i < length xs"
    "bad_amount (get_prop (xs ! i) ''amount'')"
  shows "\<exists>e \<in> set (validationResult body). e_path e = element_path i ''amount''"
proof -
  have inst: "(element_path i ''amount'', get_prop (xs ! i) ''amount'')
      \<in> set (element_instances ''amount'' xs)"
    using element_instance_nth [OF assms(2), of "''amount''"] by (simp add: element_path_amount)
  from bad_amount_error [OF assms(3)] error_listed obtain e where
    e: "e \<in> set (run_item amount_numeric_item (element_path i ''amount'') (get_prop (xs ! i) ''amount''))
        \<or> e \<in> set (run_item amount_float_item (element_path i ''amount'') (get_prop (xs ! i) ''amount''))"
       "e_path e = element_path i ''amount''" by blast
  from e(1) in_concat_instances [OF inst] have "e \<in> set (run_chain body amount_chain)"
    unfolding run_amount_chain [OF assms(1)] set_append by blast
  with e(2) show ?thesis by (auto simp: validationResult_chains)
qed

text \<open>What evaluates Decimal arithmetic on numerals.\<close>

lemmas eval_decimal = normalise_def strip_zeros.simps nat_digits.simps sd_def precision_def
  finalise_def round_half_up_def add_exact_def negated_def signed_amount_def Let_def
  plain_notation_def dval_def

text \<open>What evaluates the validators on strings, and a chain on a given body.\<close>

lemmas eval_string = isNumeric_def isFloat_min_0_def parseFloat_ge_0_def scan_numeral_def
  take_sign_def take_exponent_def is_digit_def numeral_decimal_def digits_val_def digit_val_def
  isIn_def isEmpty_def isArray_def isDecimal_def toString_def values_of_def
  number_toString_def digit_char_def eval_nat_numeral

lemmas eval_chains = validationResult_chains run_initialBalance_chain run_transactions_chain
  run_type_chain run_amount_chain element_instances_def type_item_def amount_numeric_item_def
  amount_float_item_def

subsection \<open>Numbers in exponent notation\<close>

text \<open>
  JavaScript prints a number of 1e21 and more, or under 1e-6, with an exponent, which
  \<^verbatim>\<open>isNumeric\<close> does not match: a request with the initial balance \<open>1e21\<close> is answered 400.
\<close>

lemma exponent_notation_rejected:
  "post_calculate_balance (\<lambda>q. q)
     (Request_json \<lparr>initialBalance = Dec 1 21,
        transactions = [\<lparr>type = credit, amount = Dec 1 0\<rparr>]\<rparr>) =
     (400, Failure \<lparr>error = ''Validation failed'', message = None,
        details = Some [\<lparr>e_type = ''field'', e_value = Some (JNum (Dec 1 21)),
                         e_msg = ''initialBalance must be a number'',
                         e_path = ''initialBalance'', e_location = ''body''\<rparr>]\<rparr>)"
proof -
  let ?r = "\<lparr>initialBalance = Dec 1 21, transactions = [\<lparr>type = credit, amount = Dec 1 0\<rparr>]\<rparr>"
  have p: "\<not> plain_notation (Dec 1 21)" "plain_notation (Dec 1 0)" "0 \<le> dval (Dec 1 0)"
    by (simp_all add: eval_decimal)
  have c1: "run_chain (Request_json ?r) initialBalance_chain =
      [\<lparr>e_type = ''field'', e_value = Some (JNum (Dec 1 21)),
        e_msg = ''initialBalance must be a number'',
        e_path = ''initialBalance'', e_location = ''body''\<rparr>]"
    by (simp add: typed_initialBalance_chain p field_error_def)
  note c2 = typed_transactions_chain [of ?r]
  note c3 = typed_type_chain [of ?r]
  have c4: "run_chain (Request_json ?r) amount_chain = []"
    by (simp add: typed_amount_chain p)
  have "validationResult (Request_json ?r) =
      [\<lparr>e_type = ''field'', e_value = Some (JNum (Dec 1 21)),
        e_msg = ''initialBalance must be a number'',
        e_path = ''initialBalance'', e_location = ''body''\<rparr>]"
    by (simp only: validationResult_chains c1 c2 c3 c4 append_Nil2)
  then show ?thesis
    using rejected [of "Request_json ?r" "\<lambda>q. q"] by simp
qed


section \<open>The properties\<close>

subsection \<open>The final balance\<close>

text \<open>
  C1, as stated: for every valid request the returned \<open>finalBalance\<close> is exactly the
  initial balance plus the credits minus the debits.  It fails where a running total needs
  more than 20 significant digits: starting from \<open>1e20\<close>, a credit of 1 is rounded away,
  and the debit of \<open>1e20\<close> then leaves 0 where the exact sum is 1.
\<close>

theorem C1_counterexample:
  "post_calculate_balance (\<lambda>q. q)
     (Request_json \<lparr>initialBalance = Dec 1 20,
        transactions = [\<lparr>type = credit, amount = Dec 1 0\<rparr>,
                        \<lparr>type = debit, amount = Dec 1 20\<rparr>]\<rparr>) =
     (200, Balance \<lparr>finalBalance = 0, status = 1\<rparr>) \<and>
   spec_finalBalance \<lparr>initialBalance = Dec 1 20,
        transactions = [\<lparr>type = credit, amount = Dec 1 0\<rparr>,
                        \<lparr>type = debit, amount = Dec 1 20\<rparr>]\<rparr> = 1"
proof -
  let ?r = "\<lparr>initialBalance = Dec 1 20,
        transactions = [\<lparr>type = credit, amount = Dec 1 0\<rparr>,
                        \<lparr>type = debit, amount = Dec 1 20\<rparr>]\<rparr>"
  have ok: "validationResult (Request_json ?r) = []"
    by (simp add: typed_request_accepted) (simp add: eval_decimal)
  have "compute_balance (Request_json ?r) = Inr (Dec 0 0)"
    by (simp add: compute_balance_typed process_transaction_typed eval_decimal)
  then have "calculate_balance (\<lambda>q. q) (Request_json ?r) =
      (200, Balance \<lparr>finalBalance = 0, status = 1\<rparr>)"
    by (simp add: calculate_balance_def dval_def)
  moreover have "spec_finalBalance ?r = 1"
    by (simp add: spec_finalBalance_def credits_def debits_def dval_def)
  ultimately show ?thesis
    using accepted_next [OF ok] by simp
qed

text \<open>
  C1, amended: for every request of the declared type that the validator accepts and whose
  running totals each have at most 20 significant digits, the response is 200 and
  \<open>finalBalance\<close> is the double of the initial balance plus the sum of the credit amounts
  minus the sum of the debit amounts, that sum taken exactly.
\<close>

theorem C1_finalBalance_exact:
  assumes "validationResult (Request_json r) = []"
    and "within_precision (normalise (initialBalance r)) (transactions r)"
  shows "post_calculate_balance toNumber (Request_json r) =
     (200, Balance \<lparr>finalBalance = toNumber (spec_finalBalance r),
                    status = (if 0 \<le> toNumber (spec_finalBalance r) then 1 else 2)\<rparr>)"
proof -
  from compute_balance_exact [OF assms(2)] obtain b where
    b: "compute_balance (Request_json r) = Inr b" "dval b = spec_finalBalance r" by blast
  then have "calculate_balance toNumber (Request_json r) =
     (200, Balance \<lparr>finalBalance = toNumber (spec_finalBalance r),
                    status = (if 0 \<le> toNumber (spec_finalBalance r) then 1 else 2)\<rparr>)"
    by (simp add: calculate_balance_def Let_def)
  then show ?thesis using accepted_next [OF assms(1)] by simp
qed

text \<open>
  The decimal amounts of the repository's own test: 1000.50 + 99.99 - 50.25 = 1050.24.
\<close>

theorem C1_witness:
  "validationResult (Request_json \<lparr>initialBalance = Dec 100050 (- 2),
        transactions = [\<lparr>type = credit, amount = Dec 9999 (- 2)\<rparr>,
                        \<lparr>type = debit, amount = Dec 5025 (- 2)\<rparr>]\<rparr>) = [] \<and>
   within_precision (normalise (Dec 100050 (- 2)))
      [\<lparr>type = credit, amount = Dec 9999 (- 2)\<rparr>, \<lparr>type = debit, amount = Dec 5025 (- 2)\<rparr>] \<and>
   post_calculate_balance (\<lambda>q. q)
     (Request_json \<lparr>initialBalance = Dec 100050 (- 2),
        transactions = [\<lparr>type = credit, amount = Dec 9999 (- 2)\<rparr>,
                        \<lparr>type = debit, amount = Dec 5025 (- 2)\<rparr>]\<rparr>) =
     (200, Balance \<lparr>finalBalance = 26256 / 25, status = 1\<rparr>)"
proof -
  let ?r = "\<lparr>initialBalance = Dec 100050 (- 2),
        transactions = [\<lparr>type = credit, amount = Dec 9999 (- 2)\<rparr>,
                        \<lparr>type = debit, amount = Dec 5025 (- 2)\<rparr>]\<rparr>"
  have ok: "validationResult (Request_json ?r) = []"
    by (simp add: typed_request_accepted) (simp add: eval_decimal)
  have fit: "within_precision (normalise (initialBalance ?r)) (transactions ?r)"
    by (simp add: eval_decimal)
  have sp: "spec_finalBalance ?r = 26256 / 25"
    by (simp add: spec_finalBalance_def credits_def debits_def dval_def)
  show ?thesis
    using C1_finalBalance_exact [OF ok fit, of "\<lambda>q. q"] ok fit by (simp add: sp)
qed

subsection \<open>The status\<close>

text \<open>
  C2: whenever the route answers 200, the status is 2 exactly when the returned
  \<open>finalBalance\<close> is negative and 1 exactly when it is zero or more; zero gives 1.  This
  holds for every body and every conversion \<open>toNumber\<close>, since the status is computed from
  the number that is returned.
\<close>

theorem C2_status_from_sign:
  assumes "post_calculate_balance toNumber body = (200, Balance response)"
  shows "(status response = 2 \<longleftrightarrow> finalBalance response < 0) \<and>
         (status response = 1 \<longleftrightarrow> 0 \<le> finalBalance response)"
proof (cases "validationResult body = []")
  case True
  with assms have h: "calculate_balance toNumber body = (200, Balance response)"
    by (simp add: accepted_next)
  show ?thesis
  proof (cases "compute_balance body")
    case (Inl e)
    with h show ?thesis by (simp add: calculate_balance_def)
  next
    case (Inr balance)
    with h have "response = \<lparr>finalBalance = toNumber (dval balance),
        status = (if 0 \<le> toNumber (dval balance) then 1 else 2)\<rparr>"
      by (simp add: calculate_balance_def Let_def)
    then show ?thesis by simp
  qed
next
  case False
  with assms show ?thesis by (simp add: rejected)
qed

text \<open>
  A debit of the whole balance: the final balance is zero and the status 1.
\<close>

theorem C2_witness:
  "post_calculate_balance (\<lambda>q. q)
     (Request_json \<lparr>initialBalance = Dec 1000 0,
        transactions = [\<lparr>type = debit, amount = Dec 1000 0\<rparr>]\<rparr>) =
     (200, Balance \<lparr>finalBalance = 0, status = 1\<rparr>) \<and>
   (status \<lparr>finalBalance = 0, status = 1\<rparr> = 2 \<longleftrightarrow> finalBalance \<lparr>finalBalance = 0, status = 1\<rparr> < 0) \<and>
   (status \<lparr>finalBalance = 0, status = 1\<rparr> = 1 \<longleftrightarrow> 0 \<le> finalBalance \<lparr>finalBalance = 0, status = 1\<rparr>)"
proof -
  let ?r = "\<lparr>initialBalance = Dec 1000 0,
        transactions = [\<lparr>type = debit, amount = Dec 1000 0\<rparr>]\<rparr>"
  have ok: "validationResult (Request_json ?r) = []"
    by (simp add: typed_request_accepted) (simp add: eval_decimal)
  have "compute_balance (Request_json ?r) = Inr (Dec 0 0)"
    by (simp add: compute_balance_typed process_transaction_typed eval_decimal)
  then have "calculate_balance (\<lambda>q. q) (Request_json ?r) =
      (200, Balance \<lparr>finalBalance = 0, status = 1\<rparr>)"
    by (simp add: calculate_balance_def dval_def)
  then have r: "post_calculate_balance (\<lambda>q. q) (Request_json ?r) =
      (200, Balance \<lparr>finalBalance = 0, status = 1\<rparr>)"
    using accepted_next [OF ok] by simp
  from C2_status_from_sign [OF r] r show ?thesis by blast
qed

subsection \<open>Validation\<close>

text \<open>
  C3: the claim has a request whose \<open>transactions\<close> is an empty array answered 400.  The
  chain of the field is \<^verbatim>\<open>isArray().notEmpty()\<close>, with the message
  \<^verbatim>\<open>transactions array cannot be empty\<close>, and the repository's test
  \<^verbatim>\<open>should return 400 if transactions array is empty\<close> expects the 400.  But
  \<^verbatim>\<open>notEmpty\<close> is a standard validator: it is run on each element of an array, and so on
  nothing when the array is empty.  The request
  \<^verbatim>\<open>{"initialBalance": 1000, "transactions": []}\<close> passes validation and is answered 200
  with the balance 1000.
\<close>

theorem C3_empty_transactions_accepted:
  "validationResult
     (JObj [(''initialBalance'', JNum (Dec 1000 0)), (''transactions'', JArr [])]) = [] \<and>
   post_calculate_balance toNumber
     (JObj [(''initialBalance'', JNum (Dec 1000 0)), (''transactions'', JArr [])]) =
     (200, Balance \<lparr>finalBalance = toNumber 1000,
                    status = (if 0 \<le> toNumber 1000 then 1 else 2)\<rparr>)"
proof -
  let ?body = "JObj [(''initialBalance'', JNum (Dec 1000 0)), (''transactions'', JArr [])]"
  have tx: "get_prop ?body ''transactions'' = Some (JArr [])" by simp
  have ok: "validationResult ?body = []"
    unfolding validationResult_chains run_initialBalance_chain run_transactions_chain
      run_type_chain [OF tx] run_amount_chain [OF tx]
    by (simp add: eval_chains eval_string eval_decimal)
  have n: "new_Decimal (Some (JNum (Dec 1000 0))) = Inr (Dec 1 3)"
    by (simp add: new_Decimal_def eval_string eval_decimal)
  have "compute_balance ?body = Inr (Dec 1 3)"
    by (simp add: compute_balance_def destructure_def iterate_def n)
  then have "calculate_balance toNumber ?body =
     (200, Balance \<lparr>finalBalance = toNumber 1000,
                    status = (if 0 \<le> toNumber 1000 then 1 else 2)\<rparr>)"
    by (simp add: calculate_balance_def Let_def dval_def)
  then show ?thesis using ok accepted_next [OF ok, of toNumber] by simp
qed

text \<open>
  C4: the claim has the details of the 400 response name every violated field.  The
  request \<^verbatim>\<open>{"initialBalance": "abc", "transactions": []}\<close> breaks two rules, the one on
  \<open>initialBalance\<close> and the one that \<open>transactions\<close> is not empty.  For the reason given
  at C3 the second goes unnoticed: the details hold the one error of \<open>initialBalance\<close> and
  none of \<open>transactions\<close>.
\<close>

theorem C4_empty_transactions_not_listed:
  "validationResult
     (JObj [(''initialBalance'', JStr ''abc''), (''transactions'', JArr [])]) =
     [\<lparr>e_type = ''field'', e_value = Some (JStr ''abc''),
       e_msg = ''initialBalance must be a number'',
       e_path = ''initialBalance'', e_location = ''body''\<rparr>] \<and>
   post_calculate_balance toNumber
     (JObj [(''initialBalance'', JStr ''abc''), (''transactions'', JArr [])]) =
     (400, Failure \<lparr>error = ''Validation failed'', message = None,
        details = Some [\<lparr>e_type = ''field'', e_value = Some (JStr ''abc''),
                         e_msg = ''initialBalance must be a number'',
                         e_path = ''initialBalance'', e_location = ''body''\<rparr>]\<rparr>)"
proof -
  let ?body = "JObj [(''initialBalance'', JStr ''abc''), (''transactions'', JArr [])]"
  have tx: "get_prop ?body ''transactions'' = Some (JArr [])" by simp
  have v: "\<not> isNumeric ''abc''"
    by (simp add: eval_string)
  have errs: "validationResult ?body =
     [\<lparr>e_type = ''field'', e_value = Some (JStr ''abc''),
       e_msg = ''initialBalance must be a number'',
       e_path = ''initialBalance'', e_location = ''body''\<rparr>]"
    unfolding validationResult_chains run_initialBalance_chain run_transactions_chain
      run_type_chain [OF tx] run_amount_chain [OF tx]
    by (simp add: eval_chains v field_error_def isEmpty_def isArray_def values_of_def)
  then show ?thesis
    using rejected [of ?body toNumber] by simp
qed

subsection \<open>Laws of the loop\<close>

text \<open>
  C5, as stated: applying a list and then its pointwise inverse returns the balance to
  its initial value.  From the initial balance 1, a credit of \<open>1e20\<close> gives a total of 21
  digits, which is rounded to \<open>1e20\<close>; the inverse debit then gives 0.
\<close>

theorem C5_counterexample:
  "process_transactions (Dec 1 0)
     (map Transaction_json
        ([\<lparr>type = credit, amount = Dec 1 20\<rparr>] @ map invert [\<lparr>type = credit, amount = Dec 1 20\<rparr>])) =
     Inr (Dec 0 0) \<and>
   dval (Dec 0 0) \<noteq> dval (Dec 1 0)"
  by (simp add: process_transaction_typed invert_def eval_decimal)

text \<open>
  C5, amended: for every balance and every list of transactions, if the running totals
  of the list followed by its pointwise inverse each have at most 20 significant digits,
  then the loop ends with a balance of the same value as the one it began with.
\<close>

theorem C5_round_trip_within_precision:
  assumes "within_precision b (ts @ map invert ts)"
  shows "\<exists>b'. process_transactions b (map Transaction_json (ts @ map invert ts)) = Inr b' \<and>
              dval b' = dval b"
proof -
  from process_transactions_exact [OF assms] obtain b' where
    "process_transactions b (map Transaction_json (ts @ map invert ts)) = Inr b'"
    "dval b' = dval b + sum_list (map net (ts @ map invert ts))" by blast
  moreover have "sum_list (map net (ts @ map invert ts)) = 0"
    using sum_net_invert [of ts] by simp
  ultimately show ?thesis by simp
qed

text \<open>
  A credit of 99.99 and a debit of 2000 on 1000.5, then their inverses.
\<close>

theorem C5_witness:
  "within_precision (Dec 10005 (- 1))
     ([\<lparr>type = credit, amount = Dec 9999 (- 2)\<rparr>, \<lparr>type = debit, amount = Dec 2000 0\<rparr>] @
      map invert [\<lparr>type = credit, amount = Dec 9999 (- 2)\<rparr>, \<lparr>type = debit, amount = Dec 2000 0\<rparr>]) \<and>
   (\<exists>b'. process_transactions (Dec 10005 (- 1))
      (map Transaction_json
        ([\<lparr>type = credit, amount = Dec 9999 (- 2)\<rparr>, \<lparr>type = debit, amount = Dec 2000 0\<rparr>] @
         map invert [\<lparr>type = credit, amount = Dec 9999 (- 2)\<rparr>, \<lparr>type = debit, amount = Dec 2000 0\<rparr>])) =
      Inr b' \<and> dval b' = dval (Dec 10005 (- 1)))"
proof -
  have fit: "within_precision (Dec 10005 (- 1))
     ([\<lparr>type = credit, amount = Dec 9999 (- 2)\<rparr>, \<lparr>type = debit, amount = Dec 2000 0\<rparr>] @
      map invert [\<lparr>type = credit, amount = Dec 9999 (- 2)\<rparr>, \<lparr>type = debit, amount = Dec 2000 0\<rparr>])"
    by (simp add: invert_def eval_decimal)
  from C5_round_trip_within_precision [OF fit] fit show ?thesis by blast
qed

text \<open>
  C6, as stated: any permutation of the transactions yields the same final balance.
  From 0, the credits \<open>1e20\<close> and 1 followed by the debit \<open>1e20\<close> give 0, while the
  credit and the debit of \<open>1e20\<close> followed by the credit 1 give 1.
\<close>

theorem C6_counterexample:
  "mset [\<lparr>type = credit, amount = Dec 1 20\<rparr>, \<lparr>type = credit, amount = Dec 1 0\<rparr>,
         \<lparr>type = debit, amount = Dec 1 20\<rparr>] =
   mset [\<lparr>type = credit, amount = Dec 1 20\<rparr>, \<lparr>type = debit, amount = Dec 1 20\<rparr>,
         \<lparr>type = credit, amount = Dec 1 0\<rparr>] \<and>
   process_transactions (Dec 0 0)
     (map Transaction_json [\<lparr>type = credit, amount = Dec 1 20\<rparr>,
        \<lparr>type = credit, amount = Dec 1 0\<rparr>, \<lparr>type = debit, amount = Dec 1 20\<rparr>]) = Inr (Dec 0 0) \<and>
   process_transactions (Dec 0 0)
     (map Transaction_json [\<lparr>type = credit, amount = Dec 1 20\<rparr>,
        \<lparr>type = debit, amount = Dec 1 20\<rparr>, \<lparr>type = credit, amount = Dec 1 0\<rparr>]) = Inr (Dec 1 0)"
  by (simp add: process_transaction_typed eval_decimal)

text \<open>
  C6, amended: the loop takes the transactions in the order of the array, a credit
  adding its amount to the running balance and a debit subtracting it; and two orders of
  the same transactions end with balances of the same value whenever the running totals
  of both orders each have at most 20 significant digits.
\<close>

theorem C6_in_order_and_order_independent:
  "process_transactions b (Transaction_json t # js) =
     process_transactions
       (case type t of
          credit \<Rightarrow> Decimal_plus b (normalise (amount t))
        | debit \<Rightarrow> Decimal_minus b (normalise (amount t))) js \<and>
   (mset ts = mset ts' \<and> within_precision b ts \<and> within_precision b ts' \<longrightarrow>
      (\<exists>x y. process_transactions b (map Transaction_json ts) = Inr x \<and>
             process_transactions b (map Transaction_json ts') = Inr y \<and> dval x = dval y))"
proof
  show "process_transactions b (Transaction_json t # js) =
     process_transactions
       (case type t of
          credit \<Rightarrow> Decimal_plus b (normalise (amount t))
        | debit \<Rightarrow> Decimal_minus b (normalise (amount t))) js"
    by (cases "type t")
      (simp_all add: process_transaction_typed signed_amount_def Decimal_plus_def
        Decimal_minus_def)
next
  show "mset ts = mset ts' \<and> within_precision b ts \<and> within_precision b ts' \<longrightarrow>
      (\<exists>x y. process_transactions b (map Transaction_json ts) = Inr x \<and>
             process_transactions b (map Transaction_json ts') = Inr y \<and> dval x = dval y)"
  proof
    assume h: "mset ts = mset ts' \<and> within_precision b ts \<and> within_precision b ts'"
    from h process_transactions_exact [of b ts] obtain x where
      x: "process_transactions b (map Transaction_json ts) = Inr x"
         "dval x = dval b + sum_list (map net ts)" by blast
    from h process_transactions_exact [of b ts'] obtain y where
      y: "process_transactions b (map Transaction_json ts') = Inr y"
         "dval y = dval b + sum_list (map net ts')" by blast
    from h have "mset ts = mset ts'" by simp
    then have "sum_list (map net ts) = sum_list (map net ts')"
      by (rule sum_net_mset)
    with x y show "\<exists>x y. process_transactions b (map Transaction_json ts) = Inr x \<and>
             process_transactions b (map Transaction_json ts') = Inr y \<and> dval x = dval y"
      by simp
  qed
qed

text \<open>
  Two orders of a debit of 800 and a credit of 500 on 1000.
\<close>

theorem C6_witness:
  "mset [\<lparr>type = debit, amount = Dec 800 0\<rparr>, \<lparr>type = credit, amount = Dec 500 0\<rparr>] =
   mset [\<lparr>type = credit, amount = Dec 500 0\<rparr>, \<lparr>type = debit, amount = Dec 800 0\<rparr>] \<and>
   within_precision (Dec 1000 0)
     [\<lparr>type = debit, amount = Dec 800 0\<rparr>, \<lparr>type = credit, amount = Dec 500 0\<rparr>] \<and>
   within_precision (Dec 1000 0)
     [\<lparr>type = credit, amount = Dec 500 0\<rparr>, \<lparr>type = debit, amount = Dec 800 0\<rparr>] \<and>
   (\<exists>x y. process_transactions (Dec 1000 0) (map Transaction_json
             [\<lparr>type = debit, amount = Dec 800 0\<rparr>, \<lparr>type = credit, amount = Dec 500 0\<rparr>]) = Inr x \<and>
          process_transactions (Dec 1000 0) (map Transaction_json
             [\<lparr>type = credit, amount = Dec 500 0\<rparr>, \<lparr>type = debit, amount = Dec 800 0\<rparr>]) = Inr y \<and>
          dval x = dval y)"
proof -
  let ?ts = "[\<lparr>type = debit, amount = Dec 800 0\<rparr>, \<lparr>type = credit, amount = Dec 500 0\<rparr>]"
  let ?ts' = "[\<lparr>type = credit, amount = Dec 500 0\<rparr>, \<lparr>type = debit, amount = Dec 800 0\<rparr>]"
  have m: "mset ?ts = mset ?ts'" by simp
  have f: "within_precision (Dec 1000 0) ?ts" by (simp add: eval_decimal)
  have f': "within_precision (Dec 1000 0) ?ts'" by (simp add: eval_decimal)
  note th = C6_in_order_and_order_independent [of "Dec 1000 0" undefined "[]" ?ts ?ts',
      THEN conjunct2, rule_format, OF conjI [OF m conjI [OF f f']]]
  show ?thesis
    by (intro conjI m f f' th)
qed

subsection \<open>Overdraft and failures\<close>

text \<open>
  C7, as stated: when the debits exceed the balance, the result is the negative exact sum
  with status overdraft.  From 0, debits of \<open>1e20\<close> and 1 and a credit of \<open>1e20\<close> have
  the exact sum -1, but the debit of 1 is rounded away and the response is a balance of
  0 with status 1.
\<close>

theorem C7_counterexample:
  "spec_finalBalance \<lparr>initialBalance = Dec 0 0,
        transactions = [\<lparr>type = debit, amount = Dec 1 20\<rparr>, \<lparr>type = debit, amount = Dec 1 0\<rparr>,
                        \<lparr>type = credit, amount = Dec 1 20\<rparr>]\<rparr> = - 1 \<and>
   post_calculate_balance (\<lambda>q. q)
     (Request_json \<lparr>initialBalance = Dec 0 0,
        transactions = [\<lparr>type = debit, amount = Dec 1 20\<rparr>, \<lparr>type = debit, amount = Dec 1 0\<rparr>,
                        \<lparr>type = credit, amount = Dec 1 20\<rparr>]\<rparr>) =
     (200, Balance \<lparr>finalBalance = 0, status = 1\<rparr>)"
proof -
  let ?r = "\<lparr>initialBalance = Dec 0 0,
        transactions = [\<lparr>type = debit, amount = Dec 1 20\<rparr>, \<lparr>type = debit, amount = Dec 1 0\<rparr>,
                        \<lparr>type = credit, amount = Dec 1 20\<rparr>]\<rparr>"
  have ok: "validationResult (Request_json ?r) = []"
    by (simp add: typed_request_accepted) (simp add: eval_decimal)
  have "compute_balance (Request_json ?r) = Inr (Dec 0 0)"
    by (simp add: compute_balance_typed process_transaction_typed eval_decimal)
  then have "calculate_balance (\<lambda>q. q) (Request_json ?r) =
      (200, Balance \<lparr>finalBalance = 0, status = 1\<rparr>)"
    by (simp add: calculate_balance_def dval_def)
  moreover have "spec_finalBalance ?r = - 1"
    by (simp add: spec_finalBalance_def credits_def debits_def dval_def)
  ultimately show ?thesis
    using accepted_next [OF ok] by simp
qed

text \<open>
  C7, amended: for every request of the declared type that the validator accepts, whose
  running totals each have at most 20 significant digits and whose exact sum is negative,
  the response is 200, never an error and never clamped: \<open>finalBalance\<close> is the double of
  that negative sum and, the double being negative too, the status is 2.
\<close>

theorem C7_overdraft_reported:
  assumes "validationResult (Request_json r) = []"
    and "within_precision (normalise (initialBalance r)) (transactions r)"
    and "spec_finalBalance r < 0"
    and "toNumber (spec_finalBalance r) < 0"
  shows "post_calculate_balance toNumber (Request_json r) =
     (200, Balance \<lparr>finalBalance = toNumber (spec_finalBalance r), status = 2\<rparr>)"
proof -
  from compute_balance_exact [OF assms(2)] obtain b where
    b: "compute_balance (Request_json r) = Inr b" "dval b = spec_finalBalance r" by blast
  then have "calculate_balance toNumber (Request_json r) =
     (200, Balance \<lparr>finalBalance = toNumber (spec_finalBalance r), status = 2\<rparr>)"
    using assms(4) by (simp add: calculate_balance_def Let_def)
  then show ?thesis using accepted_next [OF assms(1)] by simp
qed

text \<open>
  The repository's overdraft test: 1000 - 1500 = -500 with status 2.
\<close>

theorem C7_witness:
  "validationResult (Request_json \<lparr>initialBalance = Dec 1000 0,
        transactions = [\<lparr>type = debit, amount = Dec 1500 0\<rparr>]\<rparr>) = [] \<and>
   within_precision (normalise (Dec 1000 0)) [\<lparr>type = debit, amount = Dec 1500 0\<rparr>] \<and>
   spec_finalBalance \<lparr>initialBalance = Dec 1000 0,
        transactions = [\<lparr>type = debit, amount = Dec 1500 0\<rparr>]\<rparr> = - 500 \<and>
   post_calculate_balance (\<lambda>q. q)
     (Request_json \<lparr>initialBalance = Dec 1000 0,
        transactions = [\<lparr>type = debit, amount = Dec 1500 0\<rparr>]\<rparr>) =
     (200, Balance \<lparr>finalBalance = - 500, status = 2\<rparr>)"
proof -
  let ?r = "\<lparr>initialBalance = Dec 1000 0,
        transactions = [\<lparr>type = debit, amount = Dec 1500 0\<rparr>]\<rparr>"
  have ok: "validationResult (Request_json ?r) = []"
    by (simp add: typed_request_accepted) (simp add: eval_decimal)
  have fit: "within_precision (normalise (initialBalance ?r)) (transactions ?r)"
    by (simp add: eval_decimal)
  have sp: "spec_finalBalance ?r = - 500"
    by (simp add: spec_finalBalance_def credits_def debits_def dval_def)
  have neg: "spec_finalBalance ?r < 0" "(\<lambda>q. q) (spec_finalBalance ?r) < 0"
    by (simp_all add: sp)
  show ?thesis
    using C7_overdraft_reported [of ?r "\<lambda>q. q", OF ok fit neg(1)] ok fit by (simp add: sp)
qed

text \<open>
  C8: when validation has passed and the computation throws, the route answers 500 with
  error \<^verbatim>\<open>Internal server error\<close> and the message of what was thrown; and the handler
  always answers, either with a complete result or with that error body.
\<close>

theorem C8_exceptions_reported:
  "(validationResult body = [] \<and> compute_balance body = Inl e \<longrightarrow>
      post_calculate_balance toNumber body =
        (500, Failure \<lparr>error = ''Internal server error'', message = Some (error_message e),
                       details = None\<rparr>)) \<and>
   ((\<exists>response. calculate_balance toNumber body = (200, Balance response)) \<or>
    (\<exists>m. calculate_balance toNumber body =
        (500, Failure \<lparr>error = ''Internal server error'', message = Some m, details = None\<rparr>)))"
proof
  show "validationResult body = [] \<and> compute_balance body = Inl e \<longrightarrow>
      post_calculate_balance toNumber body =
        (500, Failure \<lparr>error = ''Internal server error'', message = Some (error_message e),
                       details = None\<rparr>)"
    by (simp add: accepted_next calculate_balance_def)
next
  show "(\<exists>response. calculate_balance toNumber body = (200, Balance response)) \<or>
    (\<exists>m. calculate_balance toNumber body =
        (500, Failure \<lparr>error = ''Internal server error'', message = Some m, details = None\<rparr>))"
    by (cases "compute_balance body") (simp_all add: calculate_balance_def Let_def)
qed

text \<open>
  An initial balance that is an array of one number passes \<^verbatim>\<open>isNumeric\<close>, and the
  Decimal constructor then rejects it.
\<close>

theorem C8_witness:
  "validationResult
     (JObj [(''initialBalance'', JArr [JNum (Dec 100 0)]),
            (''transactions'', JArr [JObj [(''type'', JStr ''credit''), (''amount'', JNum (Dec 1 0))]])]) = [] \<and>
   compute_balance
     (JObj [(''initialBalance'', JArr [JNum (Dec 100 0)]),
            (''transactions'', JArr [JObj [(''type'', JStr ''credit''), (''amount'', JNum (Dec 1 0))]])]) =
     Inl (Error ''[DecimalError] Invalid argument: 100'') \<and>
   post_calculate_balance (\<lambda>q. q)
     (JObj [(''initialBalance'', JArr [JNum (Dec 100 0)]),
            (''transactions'', JArr [JObj [(''type'', JStr ''credit''), (''amount'', JNum (Dec 1 0))]])]) =
     (500, Failure \<lparr>error = ''Internal server error'',
                    message = Some ''[DecimalError] Invalid argument: 100'', details = None\<rparr>)"
proof -
  let ?body = "JObj [(''initialBalance'', JArr [JNum (Dec 100 0)]),
            (''transactions'', JArr [JObj [(''type'', JStr ''credit''), (''amount'', JNum (Dec 1 0))]])]"
  have tx: "get_prop ?body ''transactions'' =
      Some (JArr [JObj [(''type'', JStr ''credit''), (''amount'', JNum (Dec 1 0))]])" by simp
  have ok: "validationResult ?body = []"
    unfolding validationResult_chains run_initialBalance_chain run_transactions_chain
      run_type_chain [OF tx] run_amount_chain [OF tx]
    by (simp add: eval_chains eval_string eval_decimal)
  have ex: "compute_balance ?body = Inl (Error ''[DecimalError] Invalid argument: 100'')"
    by (simp add: compute_balance_def destructure_def new_Decimal_def invalidArgument_def
        js_String_opt_def eval_string eval_decimal)
  from C8_exceptions_reported [of ?body "Error ''[DecimalError] Invalid argument: 100''" "\<lambda>q. q"]
    ok ex
  show ?thesis by (simp add: error_message_def)
qed

subsection \<open>What the validator lets through\<close>

text \<open>
  C9: a request whose initial balance and amount are the strings \<^verbatim>\<open>"100"\<close> and
  \<^verbatim>\<open>"50.5"\<close> passes validation and is answered 200 with the balance 150.5 computed from
  the strings' values.
\<close>

theorem C9_numeric_strings_accepted:
  "validationResult
     (JObj [(''initialBalance'', JStr ''100''),
            (''transactions'', JArr [JObj [(''type'', JStr ''credit''), (''amount'', JStr ''50.5'')]])]) = [] \<and>
   post_calculate_balance toNumber
     (JObj [(''initialBalance'', JStr ''100''),
            (''transactions'', JArr [JObj [(''type'', JStr ''credit''), (''amount'', JStr ''50.5'')]])]) =
     (200, Balance \<lparr>finalBalance = toNumber (301 / 2),
                    status = (if 0 \<le> toNumber (301 / 2) then 1 else 2)\<rparr>)"
proof -
  let ?body = "JObj [(''initialBalance'', JStr ''100''),
            (''transactions'', JArr [JObj [(''type'', JStr ''credit''), (''amount'', JStr ''50.5'')]])]"
  have tx: "get_prop ?body ''transactions'' =
      Some (JArr [JObj [(''type'', JStr ''credit''), (''amount'', JStr ''50.5'')]])" by simp
  have v: "isNumeric ''100''" "isNumeric ''50.5''" "isFloat_min_0 ''50.5''"
    by (simp_all add: eval_string eval_decimal)
  have n: "new_Decimal (Some (JStr ''100'')) = Inr (Dec 1 2)"
    "new_Decimal (Some (JStr ''50.5'')) = Inr (Dec 505 (- 1))"
    by (simp_all add: new_Decimal_def eval_string eval_decimal)
  have ok: "validationResult ?body = []"
    unfolding validationResult_chains run_initialBalance_chain run_transactions_chain
      run_type_chain [OF tx] run_amount_chain [OF tx]
    by (simp add: eval_chains v isIn_def isEmpty_def isArray_def values_of_def)
  have "compute_balance ?body = Inr (Dec 1505 (- 1))"
    by (simp add: compute_balance_def destructure_def iterate_def process_transaction_def n
        Decimal_plus_def eval_decimal)
  then have "calculate_balance toNumber ?body =
     (200, Balance \<lparr>finalBalance = toNumber (301 / 2),
                    status = (if 0 \<le> toNumber (301 / 2) then 1 else 2)\<rparr>)"
    by (simp add: calculate_balance_def Let_def dval_def)
  then show ?thesis using ok accepted_next [OF ok, of toNumber] by simp
qed

text \<open>
  C10, as stated: a transaction whose type is neither \<^verbatim>\<open>credit\<close> nor \<^verbatim>\<open>debit\<close> is
  skipped, neither applied nor reported as an error.  The loop constructs the Decimal of
  the amount before it looks at the type: a transaction whose type and amount are both
  arrays passes validation, and the step throws, which the route reports as a 500.
\<close>

theorem C10_counterexample:
  "get_prop (JObj [(''type'', JArr [JStr ''credit'']), (''amount'', JArr [JNum (Dec 5 0)])]) ''type''
     \<notin> {Some (JStr ''credit''), Some (JStr ''debit'')} \<and>
   process_transaction (Dec 0 0)
     (JObj [(''type'', JArr [JStr ''credit'']), (''amount'', JArr [JNum (Dec 5 0)])]) =
     Inl (Error ''[DecimalError] Invalid argument: 5'') \<and>
   post_calculate_balance (\<lambda>q. q)
     (JObj [(''initialBalance'', JNum (Dec 0 0)),
            (''transactions'',
             JArr [JObj [(''type'', JArr [JStr ''credit'']), (''amount'', JArr [JNum (Dec 5 0)])]])]) =
     (500, Failure \<lparr>error = ''Internal server error'',
                    message = Some ''[DecimalError] Invalid argument: 5'', details = None\<rparr>)"
proof -
  let ?t = "JObj [(''type'', JArr [JStr ''credit'']), (''amount'', JArr [JNum (Dec 5 0)])]"
  let ?body = "JObj [(''initialBalance'', JNum (Dec 0 0)), (''transactions'', JArr [?t])]"
  have tx: "get_prop ?body ''transactions'' = Some (JArr [?t])" by simp
  have ok: "validationResult ?body = []"
    unfolding validationResult_chains run_initialBalance_chain run_transactions_chain
      run_type_chain [OF tx] run_amount_chain [OF tx]
    by (simp add: eval_chains eval_string eval_decimal)
  have step: "process_transaction (Dec 0 0) ?t = Inl (Error ''[DecimalError] Invalid argument: 5'')"
    by (simp add: process_transaction_def destructure_def new_Decimal_def invalidArgument_def
        js_String_opt_def eval_string eval_decimal)
  have "compute_balance ?body = Inl (Error ''[DecimalError] Invalid argument: 5'')"
    by (simp add: compute_balance_def destructure_def new_Decimal_def iterate_def step
        eval_decimal)
  then have "calculate_balance (\<lambda>q. q) ?body =
     (500, Failure \<lparr>error = ''Internal server error'',
                    message = Some ''[DecimalError] Invalid argument: 5'', details = None\<rparr>)"
    by (simp add: calculate_balance_def error_message_def)
  then show ?thesis using step accepted_next [OF ok, of "\<lambda>q. q"] by simp
qed

text \<open>
  C10, amended: for every transaction whose type is neither the string \<^verbatim>\<open>credit\<close> nor
  the string \<^verbatim>\<open>debit\<close> and whose amount the Decimal constructor accepts, the step of the
  loop returns the running balance unchanged.
\<close>

theorem C10_unknown_type_skipped:
  assumes "get_prop transaction ''type'' \<noteq> Some (JStr ''credit'')"
    and "get_prop transaction ''type'' \<noteq> Some (JStr ''debit'')"
    and "new_Decimal (get_prop transaction ''amount'') = Inr amountDecimal"
  shows "process_transaction balance transaction = Inr balance"
proof -
  have "transaction \<noteq> JNull"
    using assms(3) by (auto simp: new_Decimal_def)
  then show ?thesis
    using assms by (simp add: process_transaction_def destructure_def)
qed

text \<open>
  A transaction whose type is an array passes validation and is skipped.
\<close>

theorem C10_witness:
  "get_prop (JObj [(''type'', JArr [JStr ''credit'']), (''amount'', JNum (Dec 5 0))]) ''type''
     \<noteq> Some (JStr ''credit'') \<and>
   get_prop (JObj [(''type'', JArr [JStr ''credit'']), (''amount'', JNum (Dec 5 0))]) ''type''
     \<noteq> Some (JStr ''debit'') \<and>
   new_Decimal (get_prop (JObj [(''type'', JArr [JStr ''credit'']), (''amount'', JNum (Dec 5 0))])
     ''amount'') = Inr (Dec 5 0) \<and>
   process_transaction (Dec 7 0)
     (JObj [(''type'', JArr [JStr ''credit'']), (''amount'', JNum (Dec 5 0))]) = Inr (Dec 7 0)"
proof -
  let ?t = "JObj [(''type'', JArr [JStr ''credit'']), (''amount'', JNum (Dec 5 0))]"
  have a: "get_prop ?t ''type'' \<noteq> Some (JStr ''credit'')"
    and b: "get_prop ?t ''type'' \<noteq> Some (JStr ''debit'')" by simp_all
  have c: "new_Decimal (get_prop ?t ''amount'') = Inr (Dec 5 0)"
    by (simp add: new_Decimal_def eval_decimal)
  from C10_unknown_type_skipped [OF a b c, of "Dec 7 0"] a b c show ?thesis by blast
qed


end
